theory Spec2Isabelle
  imports Main "HOL-Library.AList"
begin

section \<open>Documents, selectors and events\<close>

text \<open>
  A \<open>TextDocument\<close> of \<open>vscode-languageserver-textdocument\<close>: the fields the plugins
  read. Snapshots of the host are modelled by their text.
\<close>

record TextDocument =
  uri :: string
  languageId :: string
  version :: int
  getText :: string

text \<open>
  An entry of a \<open>DocumentSelector\<close> is a plain string or a filter object whose
  \<open>language\<close> field is optional.
\<close>

datatype SelectorEntry = SelString string | SelObject "string option"

text \<open>
  \<open>matchDocument\<close> (packages/markdown/index.ts 356-363, packages/json/index.ts 224-231):
  the loop returns at the first entry that is the language id itself or an object whose
  \<open>language\<close> is the language id.
\<close>

fun matchDocument :: "SelectorEntry list \<Rightarrow> string \<Rightarrow> bool" where
  "matchDocument [] lang = False"
| "matchDocument (sel # rest) lang =
     (if (case sel of SelString s \<Rightarrow> s = lang | SelObject l \<Rightarrow> l = Some lang)
      then True
      else matchDocument rest lang)"

text \<open>\<open>isMarkdown\<close> (packages/markdown/src/index.ts 15-17).\<close>

definition isMarkdown :: "TextDocument \<Rightarrow> bool" where
  "isMarkdown document = (languageId document = ''markdown'')"

text \<open>
  The three emitters \<open>onDidChangeMarkdownDocument\<close>, \<open>onDidCreateMarkdownDocument\<close>
  and \<open>onDidDeleteMarkdownDocument\<close> become one log of events. The first two fire with
  a document, the third with \<open>URI.parse(uri)\<close>, kept here as the string it was parsed
  from.
\<close>

datatype event = Changed TextDocument | Created TextDocument | Deleted string

fun event_uri :: "event \<Rightarrow> string" where
  "event_uri (Changed d) = uri d"
| "event_uri (Created d) = uri d"
| "event_uri (Deleted u) = u"

text \<open>
  A JavaScript \<open>Map<string, TextDocument>\<close> is an association list in insertion order:
  \<open>set\<close> is \<^const>\<open>AList.update\<close> (an existing key keeps its place, a new one goes to
  the end), \<open>delete\<close> is \<^const>\<open>AList.delete\<close>, \<open>get\<close> and \<open>has\<close> are
  \<^const>\<open>map_of\<close>, \<open>keys()\<close> is \<open>map fst\<close> and \<open>values()\<close> is \<open>map snd\<close>.

  Every fired event is logged together with the content of \<open>syncedVersions\<close> at the
  moment of the \<open>fire\<close>, so that the order of the stores and the events can be read
  off the log. What a listener can read of the map is not modelled: it is private to the
  plugin, whose only accessor, \<open>getAllMarkdownDocuments\<close>, is asynchronous.
\<close>

type_synonym DocMap = "(string \<times> TextDocument) list"

type_synonym fired = "event \<times> DocMap"

record State =
  lastProjectVersion :: "string option"
  syncedVersions :: DocMap

definition initial :: State where
  "initial = \<lparr>lastProjectVersion = None, syncedVersions = []\<rparr>"

section \<open>The host of packages/markdown/index.ts\<close>

datatype VirtualCode =
  VirtualCode (vc_id: string) (vc_languageId: string) (vc_snapshot: string)
    (embeddedCodes: "VirtualCode list")

record SourceFile =
  sf_id :: string
  sf_languageId :: string
  sf_snapshot :: string
  generated :: "VirtualCode option"

text \<open>
  \<open>getProjectVersion\<close> is an optional method of the language service host:
  \<open>getProjectVersion?.()\<close> is \<open>None\<close> when it is absent.
\<close>

record LanguageServiceHost =
  getProjectVersion :: "string option"
  getScriptFileNames :: "string list"

text \<open>
  What \<open>sync\<close> and \<open>getTextDocument\<close> read of the service context:
  \<open>context.language.typescript\<close>, \<open>context.env.typescript.fileNameToUri\<close>,
  \<open>context.documents.getVirtualCodeByUri\<close>, \<open>getVirtualCodeUri\<close> and \<open>get\<close>, and
  \<open>context.language.files.get\<close>. They belong to \<open>@volar/language-service\<close> and are
  parameters here. \<open>context.documents.get\<close> is declared to return a \<open>TextDocument\<close>, so
  the test \<open>document &&\<close> of line 171 always passes.
\<close>

record Context =
  typescript :: "LanguageServiceHost option"
  fileNameToUri :: "string \<Rightarrow> string"
  getVirtualCodeByUri :: "string \<Rightarrow> VirtualCode option \<times> SourceFile option"
  getVirtualCodeUri :: "string \<Rightarrow> string \<Rightarrow> string"
  documents_get :: "string \<Rightarrow> string \<Rightarrow> string \<Rightarrow> TextDocument"
  files_get :: "string \<Rightarrow> SourceFile option"

text \<open>
  Modelled from the spec: \<open>forEachEmbeddedCode\<close> is imported from
  \<open>@volar/language-service\<close> and is not part of the sources; section 4.3 of the
  specification describes it as a pre-order traversal of the whole tree, the root first
  and then all nested embedded nodes recursively.
\<close>

fun forEachEmbeddedCode :: "VirtualCode \<Rightarrow> VirtualCode list" where
  "forEachEmbeddedCode (VirtualCode i l s cs) =
     VirtualCode i l s cs # concat (map forEachEmbeddedCode cs)"

section \<open>sync of packages/markdown/index.ts\<close>

text \<open>Lines 161-167: the body of the loop over the embedded codes of one source file.\<close>

definition addVirtualCode ::
  "SelectorEntry list \<Rightarrow> Context \<Rightarrow> SourceFile \<Rightarrow> VirtualCode \<Rightarrow> DocMap \<Rightarrow> DocMap" where
  "addVirtualCode documentSelector ctx sourceFile virtualCode newVersions =
     (if matchDocument documentSelector (vc_languageId virtualCode)
      then
        (let u = getVirtualCodeUri ctx (sf_id sourceFile) (vc_id virtualCode);
             document = documents_get ctx u (vc_languageId virtualCode) (vc_snapshot virtualCode)
         in AList.update (uri document) document newVersions)
      else newVersions)"

text \<open>Lines 158-174: the body of the loop over the script file names.\<close>

definition addFileName ::
  "SelectorEntry list \<Rightarrow> Context \<Rightarrow> string \<Rightarrow> DocMap \<Rightarrow> DocMap" where
  "addFileName documentSelector ctx fileName newVersions =
     (case snd (getVirtualCodeByUri ctx (fileNameToUri ctx fileName)) of
        None \<Rightarrow> newVersions
      | Some sourceFile \<Rightarrow>
          (case generated sourceFile of
             Some code \<Rightarrow>
               fold (addVirtualCode documentSelector ctx sourceFile)
                 (forEachEmbeddedCode code) newVersions
           | None \<Rightarrow>
               (let document =
                      documents_get ctx fileName (sf_languageId sourceFile) (sf_snapshot sourceFile)
                in if matchDocument documentSelector (languageId document)
                   then AList.update (uri document) document newVersions
                   else newVersions)))"

text \<open>
  Lines 177-185: for every entry of \<open>newVersions\<close> the entry is stored in
  \<open>syncedVersions\<close> first, then "changed" fires when the key was there and "created"
  when it was not. The function returns the map and the events fired, each with the map
  as it is stored at that moment.
\<close>

fun fireNew :: "DocMap \<Rightarrow> DocMap \<Rightarrow> DocMap \<times> fired list" where
  "fireNew [] synced = (synced, [])"
| "fireNew ((u, document) # rest) synced =
     (let old = map_of synced u;
          synced' = AList.update u document synced;
          e = (if old \<noteq> None then Changed document else Created document);
          (synced'', log) = fireNew rest synced'
      in (synced'', (e, synced') # log))"

text \<open>
  Lines 187-192: for every key of \<open>oldVersions\<close> that \<open>newVersions\<close> does not have,
  the entry is deleted and "deleted" fires.
\<close>

fun fireDeleted :: "string list \<Rightarrow> DocMap \<Rightarrow> DocMap \<Rightarrow> DocMap \<times> fired list" where
  "fireDeleted [] newVersions synced = (synced, [])"
| "fireDeleted (u # rest) newVersions synced =
     (if map_of newVersions u = None
      then
        (let synced' = AList.delete u synced;
             (synced'', log) = fireDeleted rest newVersions synced'
         in (synced'', (Deleted u, synced') # log))
      else fireDeleted rest newVersions synced)"

text \<open>
  Lines 154 and 177-192: the two loops in sequence. \<open>oldVersions\<close> is the set of the
  keys of \<open>syncedVersions\<close> before the loops, in the order of the map (the keys of a
  map are distinct already).
\<close>

definition reconcile :: "DocMap \<Rightarrow> DocMap \<Rightarrow> DocMap \<times> fired list" where
  "reconcile synced newVersions =
     (let oldVersions = map fst synced;
          (synced1, log1) = fireNew newVersions synced;
          (synced2, log2) = fireDeleted oldVersions newVersions synced1
      in (synced2, log1 @ log2))"

text \<open>Lines 155-175: the new set, built from an empty map.\<close>

definition newVersionsOf :: "SelectorEntry list \<Rightarrow> Context \<Rightarrow> LanguageServiceHost \<Rightarrow> DocMap" where
  "newVersionsOf documentSelector ctx languageServiceHost =
     fold (addFileName documentSelector ctx) (getScriptFileNames languageServiceHost) []"

text \<open>Lines 140-193.\<close>

definition sync :: "SelectorEntry list \<Rightarrow> Context \<Rightarrow> State \<Rightarrow> State \<times> fired list" where
  "sync documentSelector ctx st =
     (case typescript ctx of
        None \<Rightarrow> (st, [])
      | Some languageServiceHost \<Rightarrow>
          (let newProjectVersion = getProjectVersion languageServiceHost;
               shouldUpdate =
                 (newProjectVersion = None \<or> newProjectVersion \<noteq> lastProjectVersion st)
           in if \<not> shouldUpdate then (st, [])
              else
                (let newVersions = newVersionsOf documentSelector ctx languageServiceHost;
                     (synced, log) = reconcile (syncedVersions st) newVersions
                 in (\<lparr>lastProjectVersion = newProjectVersion, syncedVersions = synced\<rparr>,
                     log))))"

text \<open>Lines 90-93: \<open>getAllMarkdownDocuments\<close> syncs and returns the values of the map.\<close>

definition getAllMarkdownDocuments ::
  "SelectorEntry list \<Rightarrow> Context \<Rightarrow> State \<Rightarrow> TextDocument list \<times> State \<times> fired list" where
  "getAllMarkdownDocuments documentSelector ctx st =
     (let (st', log) = sync documentSelector ctx st
      in (map snd (syncedVersions st'), st', log))"

section \<open>The file watcher\<close>

text \<open>Lines 340-351 of packages/markdown/index.ts.\<close>

definition getTextDocument :: "Context \<Rightarrow> string \<Rightarrow> bool \<Rightarrow> TextDocument option" where
  "getTextDocument ctx u includeVirtualFile =
     (case (if includeVirtualFile then fst (getVirtualCodeByUri ctx u) else None) of
        Some virtualCode \<Rightarrow>
          Some (documents_get ctx u (vc_languageId virtualCode) (vc_snapshot virtualCode))
      | None \<Rightarrow>
          (case files_get ctx u of
             Some sourceFile \<Rightarrow>
               Some (documents_get ctx u (sf_languageId sourceFile) (sf_snapshot sourceFile))
           | None \<Rightarrow> None))"

text \<open>
  A change of \<open>event.changes\<close>: \<open>type\<close> is a \<open>FileChangeType\<close> (1 created, 2 changed,
  3 deleted) and \<open>uri\<close> a string.
\<close>

record FileEvent =
  change_type :: int
  change_uri :: string

text \<open>
  Lines 64-87: the listener registered with \<open>onDidChangeWatchedFiles\<close>. The watcher
  does not touch \<open>syncedVersions\<close>.
\<close>

definition watchChange :: "(string \<Rightarrow> bool \<Rightarrow> TextDocument option) \<Rightarrow> FileEvent \<Rightarrow> event list" where
  "watchChange lookup change =
     (if change_type change = 2 then
        (case lookup (change_uri change) False of
           Some document \<Rightarrow> [Changed document]
         | None \<Rightarrow> [])
      else if change_type change = 1 then
        (case lookup (change_uri change) False of
           Some document \<Rightarrow> [Created document]
         | None \<Rightarrow> [])
      else if change_type change = 3 then [Deleted (change_uri change)]
      else [])"

definition fileWatcher :: "Context \<Rightarrow> FileEvent list \<Rightarrow> event list" where
  "fileWatcher ctx changes = concat (map (watchChange (getTextDocument ctx)) changes)"

section \<open>Construction of the plugin instance\<close>

text \<open>
  Lines 15-19 and 33-42 of packages/markdown/index.ts. \<open>assert\<close> throws
  \<open>new Error(message)\<close> when the condition is falsy; the two capabilities are objects
  or \<open>undefined\<close>. What \<open>create\<close> does after the assertions is kept as the list of the
  effects it performs before it returns the instance: the three emitters, the
  subscription to the watched files, the language service and the map.
\<close>

datatype error = Error string

record Env =
  fs :: "unit option"
  onDidChangeWatchedFiles :: "unit option"

datatype effect = NewEmitter | Subscribe | CreateLanguageService | NewMap

definition assert :: "bool \<Rightarrow> string \<Rightarrow> error + unit" where
  "assert condition message = (if \<not> condition then Inl (Error message) else Inr ())"

definition create :: "Env \<Rightarrow> effect list \<times> (error + State)" where
  "create env =
     (case assert (fs env \<noteq> None) ''context.env.fs must be defined'' of
        Inl e \<Rightarrow> ([], Inl e)
      | Inr _ \<Rightarrow>
          (case assert (onDidChangeWatchedFiles env \<noteq> None)
                  ''context.env.fs.onDidChangeWatchedFiles must be defined'' of
             Inl e \<Rightarrow> ([], Inl e)
           | Inr _ \<Rightarrow>
               ([NewEmitter, NewEmitter, NewEmitter, Subscribe, CreateLanguageService, NewMap],
                Inr initial)))"

section \<open>The tracker of packages/markdown/src/index.ts\<close>

text \<open>
  The second source of the tracker reads the host through \<open>context.project\<close>: virtual
  files with \<open>embeddedFiles\<close>, source files with an optional \<open>root\<close>, and
  \<open>context.project.typescript?.projectHost.getProjectVersion?.()\<close>, which is \<open>None\<close>
  when TypeScript or the method is absent.
\<close>

datatype VirtualFile =
  VirtualFile (vf_id: string) (vf_languageId: string) (vf_snapshot: string)
    (embeddedFiles: "VirtualFile list")

record SourceFile_src =
  src_id :: string
  src_languageId :: string
  src_snapshot :: string
  root :: "VirtualFile option"

record Context_src =
  projectVersion :: "string option"
  getAllSourceFiles :: "SourceFile_src list"
  getSourceFile :: "string \<Rightarrow> SourceFile_src option"
  getVirtualFile :: "string \<Rightarrow> VirtualFile option \<times> SourceFile_src option"
  documents_get_src :: "string \<Rightarrow> string \<Rightarrow> string \<Rightarrow> TextDocument"

text \<open>
  Lines 152-155: \<open>walk\<close> pushes the file and then walks its embedded files; the
  array \<open>virtualFiles\<close> is the accumulator.
\<close>

fun walk :: "VirtualFile \<Rightarrow> VirtualFile list \<Rightarrow> VirtualFile list" where
  "walk (VirtualFile i l s es) virtualFiles =
     fold walk es (virtualFiles @ [VirtualFile i l s es])"

text \<open>Lines 157-160: the body of the loop over \<open>virtualFiles\<close>.\<close>

definition addEmbedded_src :: "Context_src \<Rightarrow> VirtualFile \<Rightarrow> DocMap \<Rightarrow> DocMap" where
  "addEmbedded_src ctx embedded newVersions =
     (if vf_languageId embedded = ''markdown''
      then
        (let document =
               documents_get_src ctx (vf_id embedded) (vf_languageId embedded) (vf_snapshot embedded)
         in AList.update (uri document) document newVersions)
      else newVersions)"

text \<open>Lines 150-168: the body of the loop over the source files.\<close>

definition addSourceFile_src :: "Context_src \<Rightarrow> SourceFile_src \<Rightarrow> DocMap \<Rightarrow> DocMap" where
  "addSourceFile_src ctx sourceFile newVersions =
     (case root sourceFile of
        Some r \<Rightarrow>
          (let virtualFiles = fold walk (embeddedFiles r) [r]
           in fold (addEmbedded_src ctx) virtualFiles newVersions)
      | None \<Rightarrow>
          (let document =
                 documents_get_src ctx (src_id sourceFile) (src_languageId sourceFile)
                   (src_snapshot sourceFile)
           in if isMarkdown document
              then AList.update (uri document) document newVersions
              else newVersions))"

definition newVersionsOf_src :: "Context_src \<Rightarrow> DocMap" where
  "newVersionsOf_src ctx = fold (addSourceFile_src ctx) (getAllSourceFiles ctx) []"

text \<open>
  Lines 138-187. The two loops of lines 171-186 are those of the other source, so
  \<^const>\<open>reconcile\<close> serves both.
\<close>

definition sync_src :: "Context_src \<Rightarrow> State \<Rightarrow> State \<times> fired list" where
  "sync_src ctx st =
     (let newProjectVersion = projectVersion ctx;
          shouldUpdate =
            (newProjectVersion = None \<or> newProjectVersion \<noteq> lastProjectVersion st)
      in if \<not> shouldUpdate then (st, [])
         else
           (let newVersions = newVersionsOf_src ctx;
                (synced, log) = reconcile (syncedVersions st) newVersions
            in (\<lparr>lastProjectVersion = newProjectVersion, syncedVersions = synced\<rparr>, log)))"

text \<open>Lines 323-329 and 60-85 of packages/markdown/src/index.ts.\<close>

definition getTextDocument_src :: "Context_src \<Rightarrow> string \<Rightarrow> bool \<Rightarrow> TextDocument option" where
  "getTextDocument_src ctx u includeVirtualFile =
     (case (if includeVirtualFile then fst (getVirtualFile ctx u) else None) of
        Some file \<Rightarrow> Some (documents_get_src ctx u (vf_languageId file) (vf_snapshot file))
      | None \<Rightarrow>
          (case getSourceFile ctx u of
             Some file \<Rightarrow> Some (documents_get_src ctx u (src_languageId file) (src_snapshot file))
           | None \<Rightarrow> None))"

definition fileWatcher_src :: "Context_src \<Rightarrow> FileEvent list \<Rightarrow> event list" where
  "fileWatcher_src ctx changes = concat (map (watchChange (getTextDocument_src ctx)) changes)"

section \<open>The caches of derived documents\<close>

text \<open>
  \<open>jsonDocuments\<close> (packages/json/index.ts) and \<open>htmlDocuments\<close>
  (packages/vetur/index.ts) are \<open>WeakMap\<close>s keyed by the document object. An object
  is its identity, a number, with the values its fields have at the call; the same
  identity with another \<open>version\<close> is the object after \<open>TextDocument.update\<close>. The
  parsers of the wrapped language services are parameters.
\<close>

type_synonym DocumentObject = "nat \<times> TextDocument"

text \<open>Lines 201-219 of packages/json/index.ts.\<close>

definition getJsonDocument ::
  "SelectorEntry list \<Rightarrow> (TextDocument \<Rightarrow> 'j) \<Rightarrow> DocumentObject \<Rightarrow>
   (nat \<Rightarrow> (int \<times> 'j) option) \<Rightarrow> 'j option \<times> (nat \<Rightarrow> (int \<times> 'j) option)" where
  "getJsonDocument documentSelector parseJSONDocument textDocument jsonDocuments =
     (if \<not> matchDocument documentSelector (languageId (snd textDocument))
      then (None, jsonDocuments)
      else
        (let miss =
               (let doc = parseJSONDocument (snd textDocument)
                in (Some doc,
                    jsonDocuments(fst textDocument \<mapsto> (version (snd textDocument), doc))))
         in case jsonDocuments (fst textDocument) of
              Some (cacheVersion, cacheDoc) \<Rightarrow>
                if cacheVersion = version (snd textDocument)
                then (Some cacheDoc, jsonDocuments)
                else miss
            | None \<Rightarrow> miss))"

text \<open>Lines 282-296 of packages/vetur/index.ts.\<close>

definition getHtmlDocument ::
  "(TextDocument \<Rightarrow> 'h) \<Rightarrow> DocumentObject \<Rightarrow> (nat \<Rightarrow> 'h option) \<Rightarrow>
   'h option \<times> (nat \<Rightarrow> 'h option)" where
  "getHtmlDocument parseHTMLDocument document htmlDocuments =
     (if languageId (snd document) \<noteq> ''html''
      then (None, htmlDocuments)
      else
        (case htmlDocuments (fst document) of
           Some htmlDocument \<Rightarrow> (Some htmlDocument, htmlDocuments)
         | None \<Rightarrow>
             (let htmlDocument = parseHTMLDocument (snd document)
              in (Some htmlDocument, htmlDocuments(fst document \<mapsto> htmlDocument)))))"

section \<open>The position mapper\<close>

text \<open>
  Modelled from the spec: the source map behind \<open>pugDoc.map\<close> is not part of the
  sources, which only call it (packages/pug/src/services/hover.ts 8). Section 3 of the
  specification: a mapped span is a pair of half-open ranges (left-closed, right-open),
  one in the source document and one in the generated document. Positions are offsets.
\<close>

record MappedSpan =
  source_start :: nat
  source_end :: nat
  generated_start :: nat
  generated_end :: nat

text \<open>
  Modelled from the spec: \<open>toGeneratedPosition\<close> of the absent source map, section
  4.1: the first span whose source range contains the position gives the base of its
  generated range plus the offset within the span; no span gives none.
\<close>

fun toGeneratedPosition :: "MappedSpan list \<Rightarrow> nat \<Rightarrow> nat option" where
  "toGeneratedPosition [] p = None"
| "toGeneratedPosition (m # ms) p =
     (if source_start m \<le> p \<and> p < source_end m
      then Some (generated_start m + (p - source_start m))
      else toGeneratedPosition ms p)"

text \<open>
  Modelled from the spec: \<open>toSourcePosition\<close> of the absent source map, section 4.1:
  the same in the other direction.
\<close>

fun toSourcePosition :: "MappedSpan list \<Rightarrow> nat \<Rightarrow> nat option" where
  "toSourcePosition [] g = None"
| "toSourcePosition (m # ms) g =
     (if generated_start m \<le> g \<and> g < generated_end m
      then Some (source_start m + (g - generated_start m))
      else toSourcePosition ms g)"

text \<open>
  Modelled from the spec: the order of two spans of one document, section 3: the first
  ends, in both coordinate spaces, where the second starts or earlier.
\<close>

definition span_before :: "MappedSpan \<Rightarrow> MappedSpan \<Rightarrow> bool" where
  "span_before a b =
     (source_end a \<le> source_start b \<and> generated_end a \<le> generated_start b)"

text \<open>
  Modelled from the spec: the invariant of section 3 on the spans of one embedded
  document: sorted, non-overlapping and increasing in both coordinate spaces.
\<close>

definition spans_sorted :: "MappedSpan list \<Rightarrow> bool" where
  "spans_sorted ms = sorted_wrt span_before ms"

section \<open>The new set, as the specification describes it\<close>

text \<open>
  Section 4.3, step 2, and section 9 of the specification describe the new set as a
  flattening of the project: every source file in turn, for a file with an embedded tree
  the documents of the nodes of its pre-order traversal that match the selector, for a
  file without one the document of the file itself when it matches, each inserted under
  its own URI. The definitions of this section follow those words; the theorems below
  compare them with the loops of the two sources.
\<close>

definition insertDocuments :: "TextDocument list \<Rightarrow> DocMap \<Rightarrow> DocMap" where
  "insertDocuments ds newVersions = fold (\<lambda>d. AList.update (uri d) d) ds newVersions"

definition documentOfCode :: "Context \<Rightarrow> SourceFile \<Rightarrow> VirtualCode \<Rightarrow> TextDocument" where
  "documentOfCode ctx sourceFile virtualCode =
     documents_get ctx (getVirtualCodeUri ctx (sf_id sourceFile) (vc_id virtualCode))
       (vc_languageId virtualCode) (vc_snapshot virtualCode)"

definition documentsOfFile :: "SelectorEntry list \<Rightarrow> Context \<Rightarrow> string \<Rightarrow> TextDocument list" where
  "documentsOfFile documentSelector ctx fileName =
     (case snd (getVirtualCodeByUri ctx (fileNameToUri ctx fileName)) of
        None \<Rightarrow> []
      | Some sourceFile \<Rightarrow>
          (case generated sourceFile of
             Some code \<Rightarrow>
               map (documentOfCode ctx sourceFile)
                 (filter (\<lambda>node. matchDocument documentSelector (vc_languageId node))
                    (forEachEmbeddedCode code))
           | None \<Rightarrow>
               filter (\<lambda>d. matchDocument documentSelector (languageId d))
                 [documents_get ctx fileName (sf_languageId sourceFile) (sf_snapshot sourceFile)]))"

definition matchingDocuments ::
  "SelectorEntry list \<Rightarrow> Context \<Rightarrow> LanguageServiceHost \<Rightarrow> TextDocument list" where
  "matchingDocuments documentSelector ctx languageServiceHost =
     concat (map (documentsOfFile documentSelector ctx) (getScriptFileNames languageServiceHost))"

text \<open>
  The same for packages/markdown/src/index.ts, whose selector is the language id
  \<open>markdown\<close>; \<open>preorder\<close> is the pre-order traversal of a tree of virtual files.
\<close>

fun preorder :: "VirtualFile \<Rightarrow> VirtualFile list" where
  "preorder (VirtualFile i l s es) = VirtualFile i l s es # concat (map preorder es)"

definition documentOfFile_src :: "Context_src \<Rightarrow> VirtualFile \<Rightarrow> TextDocument" where
  "documentOfFile_src ctx node =
     documents_get_src ctx (vf_id node) (vf_languageId node) (vf_snapshot node)"

definition documentsOfSourceFile_src :: "Context_src \<Rightarrow> SourceFile_src \<Rightarrow> TextDocument list" where
  "documentsOfSourceFile_src ctx sourceFile =
     (case root sourceFile of
        Some r \<Rightarrow>
          map (documentOfFile_src ctx)
            (filter (\<lambda>node. matchDocument [SelString ''markdown''] (vf_languageId node))
               (preorder r))
      | None \<Rightarrow>
          filter (\<lambda>d. matchDocument [SelString ''markdown''] (languageId d))
            [documents_get_src ctx (src_id sourceFile) (src_languageId sourceFile)
               (src_snapshot sourceFile)])"

definition matchingDocuments_src :: "Context_src \<Rightarrow> TextDocument list" where
  "matchingDocuments_src ctx = concat (map (documentsOfSourceFile_src ctx) (getAllSourceFiles ctx))"

section \<open>The stored set at each event, and lifetimes\<close>


text \<open>
  The lifetime of a tracker of packages/markdown/index.ts is a sequence of calls: a sync
  against the context as it is at that moment, or a batch of watched-file changes handed
  to the file watcher. The events of the lifetime are those of the calls, in order.
\<close>

datatype call = Sync Context | Watch Context "FileEvent list"

fun lifetime :: "SelectorEntry list \<Rightarrow> call list \<Rightarrow> State \<Rightarrow> State \<times> event list" where
  "lifetime sel [] st = (st, [])"
| "lifetime sel (Sync ctx # calls) st =
     (let (st', log) = sync sel ctx st;
          (st'', events) = lifetime sel calls st'
      in (st'', map fst log @ events))"
| "lifetime sel (Watch ctx changes # calls) st =
     (let (st', events) = lifetime sel calls st
      in (st', fileWatcher ctx changes @ events))"

text \<open>
  The create/delete pairing of the specification (sections 4.4 and 8), for the events of
  one URI: "created" is legal only when the URI is not open, "changed" and "deleted"
  only when it is; "created" and "changed" leave it open and "deleted" closes it. The
  result is \<open>None\<close> when some event of the URI is illegal, and otherwise tells whether
  the URI is open after the last event.
\<close>

fun pairing :: "string \<Rightarrow> event list \<Rightarrow> bool \<Rightarrow> bool option" where
  "pairing u [] opened = Some opened"
| "pairing u (e # es) opened =
     (if event_uri e \<noteq> u then pairing u es opened
      else
        (case e of
           Created _ \<Rightarrow> if opened then None else pairing u es True
         | Changed _ \<Rightarrow> if opened then pairing u es True else None
         | Deleted _ \<Rightarrow> if opened then pairing u es False else None))"

section \<open>Example hosts\<close>

text \<open>
  Concrete hosts for the evaluations below: a document provider that wraps its arguments,
  a context over a list of named source files, and source files without embedded tree.
\<close>

definition newDocument :: "string \<Rightarrow> string \<Rightarrow> string \<Rightarrow> TextDocument" where
  "newDocument u l s = \<lparr>uri = u, languageId = l, version = 1, getText = s\<rparr>"

definition exampleContext :: "string option \<Rightarrow> (string \<times> SourceFile) list \<Rightarrow> Context" where
  "exampleContext v files =
     \<lparr>typescript = Some \<lparr>getProjectVersion = v, getScriptFileNames = map fst files\<rparr>,
      fileNameToUri = (\<lambda>f. f),
      getVirtualCodeByUri = (\<lambda>u. (None, map_of files u)),
      getVirtualCodeUri = (\<lambda>f i. f @ ''#'' @ i),
      documents_get = newDocument,
      files_get = map_of files\<rparr>"

definition exampleContext_src :: "string option \<Rightarrow> SourceFile_src list \<Rightarrow> Context_src" where
  "exampleContext_src v files =
     \<lparr>projectVersion = v,
      getAllSourceFiles = files,
      getSourceFile = (\<lambda>u. find (\<lambda>f. src_id f = u) files),
      getVirtualFile = (\<lambda>u. (None, None)),
      documents_get_src = newDocument\<rparr>"

definition plainFile :: "string \<Rightarrow> string \<Rightarrow> string \<Rightarrow> SourceFile" where
  "plainFile i l s = \<lparr>sf_id = i, sf_languageId = l, sf_snapshot = s, generated = None\<rparr>"

definition plainFile_src :: "string \<Rightarrow> string \<Rightarrow> string \<Rightarrow> SourceFile_src" where
  "plainFile_src i l s = \<lparr>src_id = i, src_languageId = l, src_snapshot = s, root = None\<rparr>"

text \<open>
  A tracker that knows \<open>a.md\<close> and \<open>b.md\<close> at project version 1, and a project
  that holds \<open>b.md\<close>, a TypeScript file and \<open>c.md\<close>, for either source.
\<close>

definition trackedAB :: State where
  "trackedAB =
     \<lparr>lastProjectVersion = Some ''1'',
      syncedVersions =
        [(''a.md'', newDocument ''a.md'' ''markdown'' ''A''),
         (''b.md'', newDocument ''b.md'' ''markdown'' ''B'')]\<rparr>"

definition hostBC :: "(string \<times> SourceFile) list" where
  "hostBC =
     [(''b.md'', plainFile ''b.md'' ''markdown'' ''B''),
      (''t.ts'', plainFile ''t.ts'' ''typescript'' ''T''),
      (''c.md'', plainFile ''c.md'' ''markdown'' ''C'')]"

definition hostBC_src :: "SourceFile_src list" where
  "hostBC_src =
     [plainFile_src ''b.md'' ''markdown'' ''B'',
      plainFile_src ''t.ts'' ''typescript'' ''T'',
      plainFile_src ''c.md'' ''markdown'' ''C'']"

lemmas example_defs =
  exampleContext_def exampleContext_src_def plainFile_def plainFile_src_def newDocument_def
  trackedAB_def hostBC_def hostBC_src_def

lemmas sync_defs =
  sync_def sync_src_def reconcile_def newVersionsOf_def newVersionsOf_src_def addFileName_def
  addSourceFile_src_def addVirtualCode_def addEmbedded_src_def isMarkdown_def Let_def

text \<open>
  A project that holds \<open>a.md\<close> alone, and a project with a source file whose embedded
  tree nests markdown nodes beside a style sheet.
\<close>

definition hostA :: "(string \<times> SourceFile) list" where
  "hostA = [(''a.md'', plainFile ''a.md'' ''markdown'' ''A'')]"

definition hostA_src :: "SourceFile_src list" where
  "hostA_src = [plainFile_src ''a.md'' ''markdown'' ''A'']"

definition exampleTree :: VirtualCode where
  "exampleTree =
     VirtualCode ''root'' ''vue'' ''R''
       [VirtualCode ''m1'' ''markdown'' ''M1''
          [VirtualCode ''css'' ''css'' ''C'' [], VirtualCode ''m2'' ''markdown'' ''M2'' []],
        VirtualCode ''m3'' ''markdown'' ''M3'' []]"

definition hostTree :: "(string \<times> SourceFile) list" where
  "hostTree =
     [(''f.vue'',
       \<lparr>sf_id = ''f.vue'', sf_languageId = ''vue'', sf_snapshot = ''F'',
        generated = Some exampleTree\<rparr>),
      (''a.md'', plainFile ''a.md'' ''markdown'' ''A'')]"

definition exampleTree_src :: VirtualFile where
  "exampleTree_src =
     VirtualFile ''root'' ''vue'' ''R''
       [VirtualFile ''m1'' ''markdown'' ''M1''
          [VirtualFile ''css'' ''css'' ''C'' [], VirtualFile ''m2'' ''markdown'' ''M2'' []],
        VirtualFile ''m3'' ''markdown'' ''M3'' []]"

definition hostTree_src :: "SourceFile_src list" where
  "hostTree_src =
     [\<lparr>src_id = ''f.vue'', src_languageId = ''vue'', src_snapshot = ''F'',
       root = Some exampleTree_src\<rparr>,
      plainFile_src ''a.md'' ''markdown'' ''A'']"

text \<open>
  A document whose version, language id and text are given; two mapped spans with a gap
  between them; and the two spans of the example scenario of section 8 of the
  specification, \<open>[0,10)->[0,8)\<close> and \<open>[20,30)->[8,18)\<close>.
\<close>

definition page :: "int \<Rightarrow> string \<Rightarrow> string \<Rightarrow> TextDocument" where
  "page v l s = \<lparr>uri = ''p'', languageId = l, version = v, getText = s\<rparr>"

definition exampleSpans :: "MappedSpan list" where
  "exampleSpans =
     [\<lparr>source_start = 5, source_end = 15, generated_start = 0, generated_end = 10\<rparr>,
      \<lparr>source_start = 20, source_end = 23, generated_start = 10, generated_end = 13\<rparr>]"

definition scenarioSpans :: "MappedSpan list" where
  "scenarioSpans =
     [\<lparr>source_start = 0, source_end = 10, generated_start = 0, generated_end = 8\<rparr>,
      \<lparr>source_start = 20, source_end = 30, generated_start = 8, generated_end = 18\<rparr>]"

section \<open>Construction aborts without its collaborators\<close>

text \<open>
  C9. When \<open>context.env.fs\<close> or \<open>context.env.onDidChangeWatchedFiles\<close> is absent,
  \<open>create\<close> throws an error with a message that names the missing capability, before
  any emitter, subscription or map exists; with both present it returns the instance in
  its initial state. (The declaration \<open>let lastProjectVersion\<close> of line 35 precedes the
  assertions, as a binding without a value.)
\<close>

theorem create_aborts_without_collaborator:
  "(fs env = None \<longrightarrow>
      create env = ([], Inl (Error ''context.env.fs must be defined''))) \<and>
   (fs env \<noteq> None \<and> onDidChangeWatchedFiles env = None \<longrightarrow>
      create env =
        ([], Inl (Error ''context.env.fs.onDidChangeWatchedFiles must be defined''))) \<and>
   (fs env \<noteq> None \<and> onDidChangeWatchedFiles env \<noteq> None \<longrightarrow>
      (\<exists>effects. create env = (effects, Inr initial)))"
  by (simp add: create_def assert_def)

theorem create_aborts_without_collaborator_witness:
  "create \<lparr>fs = None, onDidChangeWatchedFiles = Some ()\<rparr> =
     ([], Inl (Error ''context.env.fs must be defined'')) \<and>
   create \<lparr>fs = Some (), onDidChangeWatchedFiles = None\<rparr> =
     ([], Inl (Error ''context.env.fs.onDidChangeWatchedFiles must be defined'')) \<and>
   (\<exists>effects. create \<lparr>fs = Some (), onDidChangeWatchedFiles = Some ()\<rparr> = (effects, Inr initial))"
  using create_aborts_without_collaborator [of "\<lparr>fs = None, onDidChangeWatchedFiles = Some ()\<rparr>"]
    create_aborts_without_collaborator [of "\<lparr>fs = Some (), onDidChangeWatchedFiles = None\<rparr>"]
    create_aborts_without_collaborator [of "\<lparr>fs = Some (), onDidChangeWatchedFiles = Some ()\<rparr>"]
  by simp

section \<open>The file watcher is asymmetric\<close>

lemma fileWatcher_append:
  "fileWatcher ctx (cs @ cs') = fileWatcher ctx cs @ fileWatcher ctx cs'"
  by (simp add: fileWatcher_def)

lemma fileWatcher_src_append:
  "fileWatcher_src ctx (cs @ cs') = fileWatcher_src ctx cs @ fileWatcher_src ctx cs'"
  by (simp add: fileWatcher_src_def)

text \<open>
  C10. For a watched-file change of type 1 (created) or 2 (changed) the document event
  fires only when the URI is a known source file, and nothing fires otherwise; for a
  change of type 3 (deleted) the "deleted" event always fires for the URI, whatever the
  host and the tracker know of it. Both sources of the tracker agree. The theorem is
  about one change; by \<open>fileWatcher_append\<close> the events of a batch are those of its
  changes, in order.
\<close>

theorem fileWatcher_asymmetric:
  "(change_type c = 3 \<longrightarrow>
      fileWatcher ctx [c] = [Deleted (change_uri c)] \<and>
      fileWatcher_src ctx' [c] = [Deleted (change_uri c)]) \<and>
   (change_type c = 1 \<longrightarrow>
      fileWatcher ctx [c] =
        (case files_get ctx (change_uri c) of
           None \<Rightarrow> []
         | Some f \<Rightarrow> [Created (documents_get ctx (change_uri c) (sf_languageId f) (sf_snapshot f))]) \<and>
      fileWatcher_src ctx' [c] =
        (case getSourceFile ctx' (change_uri c) of
           None \<Rightarrow> []
         | Some f \<Rightarrow>
             [Created (documents_get_src ctx' (change_uri c) (src_languageId f) (src_snapshot f))])) \<and>
   (change_type c = 2 \<longrightarrow>
      fileWatcher ctx [c] =
        (case files_get ctx (change_uri c) of
           None \<Rightarrow> []
         | Some f \<Rightarrow> [Changed (documents_get ctx (change_uri c) (sf_languageId f) (sf_snapshot f))]) \<and>
      fileWatcher_src ctx' [c] =
        (case getSourceFile ctx' (change_uri c) of
           None \<Rightarrow> []
         | Some f \<Rightarrow>
             [Changed (documents_get_src ctx' (change_uri c) (src_languageId f) (src_snapshot f))]))"
  by (simp add: fileWatcher_def fileWatcher_src_def watchChange_def getTextDocument_def
      getTextDocument_src_def split: option.split)

theorem fileWatcher_asymmetric_witness:
  "fileWatcher (exampleContext None []) [\<lparr>change_type = 3, change_uri = ''gone.md''\<rparr>] =
     [Deleted ''gone.md''] \<and>
   fileWatcher_src (exampleContext_src None []) [\<lparr>change_type = 3, change_uri = ''gone.md''\<rparr>] =
     [Deleted ''gone.md''] \<and>
   fileWatcher (exampleContext None []) [\<lparr>change_type = 1, change_uri = ''gone.md''\<rparr>] = [] \<and>
   fileWatcher_src (exampleContext_src None []) [\<lparr>change_type = 2, change_uri = ''gone.md''\<rparr>] = [] \<and>
   fileWatcher (exampleContext None [(''a.md'', plainFile ''a.md'' ''markdown'' ''x'')])
     [\<lparr>change_type = 1, change_uri = ''a.md''\<rparr>] = [Created (newDocument ''a.md'' ''markdown'' ''x'')] \<and>
   fileWatcher_src (exampleContext_src None [plainFile_src ''a.md'' ''markdown'' ''x''])
     [\<lparr>change_type = 2, change_uri = ''a.md''\<rparr>] = [Changed (newDocument ''a.md'' ''markdown'' ''x'')]"
  using
    fileWatcher_asymmetric [of "\<lparr>change_type = 3, change_uri = ''gone.md''\<rparr>"
      "exampleContext None []" "exampleContext_src None []"]
    fileWatcher_asymmetric [of "\<lparr>change_type = 1, change_uri = ''gone.md''\<rparr>"
      "exampleContext None []" "exampleContext_src None []"]
    fileWatcher_asymmetric [of "\<lparr>change_type = 2, change_uri = ''gone.md''\<rparr>"
      "exampleContext None []" "exampleContext_src None []"]
    fileWatcher_asymmetric [of "\<lparr>change_type = 1, change_uri = ''a.md''\<rparr>"
      "exampleContext None [(''a.md'', plainFile ''a.md'' ''markdown'' ''x'')]" "exampleContext_src None []"]
    fileWatcher_asymmetric [of "\<lparr>change_type = 2, change_uri = ''a.md''\<rparr>"
      "exampleContext None []" "exampleContext_src None [plainFile_src ''a.md'' ''markdown'' ''x'']"]
  by (simp add: exampleContext_def exampleContext_src_def plainFile_def plainFile_src_def)

section \<open>The two loops of sync\<close>

lemma fireNew_events:
  "distinct (map fst nv) \<Longrightarrow>
   map fst (snd (fireNew nv sv)) =
     map (\<lambda>(u, d). if u \<in> fst ` set sv then Changed d else Created d) nv"
proof (induction nv arbitrary: sv)
  case Nil
  then show ?case by simp
next
  case (Cons p nv)
  obtain u d where p: "p = (u, d)" by (cases p)
  from Cons.prems p have u: "u \<notin> fst ` set nv" and dist: "distinct (map fst nv)" by auto
  have rest: "map (\<lambda>(k, x). if k \<in> fst ` set (AList.update u d sv) then Changed x else Created x) nv =
      map (\<lambda>(k, x). if k \<in> fst ` set sv then Changed x else Created x) nv"
    using u by (intro map_cong refl) (force simp: dom_update)
  have hd: "(map_of sv u \<noteq> None) = (u \<in> fst ` set sv)"
    by (simp add: map_of_eq_None_iff)
  show ?case
    using Cons.IH [OF dist, of "AList.update u d sv"] rest hd
    by (simp add: p split_beta Let_def)
qed

lemma fireNew_synced:
  "fst (fireNew nv sv) = fold (\<lambda>(u, d). AList.update u d) nv sv"
  by (induction nv arbitrary: sv) (auto simp: split_beta Let_def)



lemma fold_update_map_of:
  "map_of (fold (\<lambda>(u, d). AList.update u d) nv sv) = map_of sv ++ map_of (rev nv)"
  by (induction nv arbitrary: sv) (auto simp: update_conv' map_add_upd_left fun_eq_iff map_add_def split: option.split)

lemma fold_update_keys:
  "fst ` set (fold (\<lambda>(u, d). AList.update u d) nv sv) = fst ` set sv \<union> fst ` set nv"
proof (induction nv arbitrary: sv)
  case Nil
  then show ?case by simp
next
  case (Cons p nv)
  have "fst ` set (AList.update (fst p) (snd p) sv) = insert (fst p) (fst ` set sv)"
    by (simp add: dom_update)
  with Cons [of "AList.update (fst p) (snd p) sv"] show ?case
    by (simp add: split_beta)
qed

lemma fold_update_distinct:
  "distinct (map fst sv) \<Longrightarrow> distinct (map fst (fold (\<lambda>(u, d). AList.update u d) nv sv))"
  by (induction nv arbitrary: sv) (auto simp: distinct_update)

lemma fireDeleted_events:
  "map fst (snd (fireDeleted old nv sv)) = map Deleted (filter (\<lambda>u. u \<notin> fst ` set nv) old)"
  by (induction old arbitrary: sv) (auto simp: split_beta Let_def map_of_eq_None_iff)

lemma fireDeleted_synced:
  "fst (fireDeleted old nv sv) = fold AList.delete (filter (\<lambda>u. u \<notin> fst ` set nv) old) sv"
  by (induction old arbitrary: sv) (auto simp: split_beta Let_def map_of_eq_None_iff)


lemma fold_delete_map_of:
  "map_of (fold AList.delete ds sv) = map_of sv |` (- set ds)"
  by (induction ds arbitrary: sv) (auto simp: delete_conv' fun_eq_iff restrict_map_def)

lemma fold_delete_distinct:
  "distinct (map fst sv) \<Longrightarrow> distinct (map fst (fold AList.delete ds sv))"
  by (induction ds arbitrary: sv) (auto simp: distinct_delete)


section \<open>The loops that build the new set refine the flattening\<close>

lemma insertDocuments_append:
  "insertDocuments (ds @ ds') m = insertDocuments ds' (insertDocuments ds m)"
  by (simp add: insertDocuments_def)

lemma insertDocuments_concat:
  "fold (\<lambda>x. insertDocuments (f x)) xs m = insertDocuments (concat (map f xs)) m"
  by (induction xs arbitrary: m) (simp_all add: insertDocuments_append, simp add: insertDocuments_def)

lemma fold_addVirtualCode:
  "fold (addVirtualCode sel ctx sf) nodes m =
     insertDocuments
       (map (documentOfCode ctx sf) (filter (\<lambda>node. matchDocument sel (vc_languageId node)) nodes)) m"
  by (induction nodes arbitrary: m)
    (simp_all add: insertDocuments_def addVirtualCode_def documentOfCode_def Let_def)

lemma addFileName_eq:
  "addFileName sel ctx fileName m = insertDocuments (documentsOfFile sel ctx fileName) m"
  by (simp add: addFileName_def documentsOfFile_def fold_addVirtualCode Let_def
      insertDocuments_def split: option.split)

lemma newVersionsOf_eq:
  "newVersionsOf sel ctx host = insertDocuments (matchingDocuments sel ctx host) []"
proof -
  have "addFileName sel ctx = (\<lambda>f. insertDocuments (documentsOfFile sel ctx f))"
    by (rule ext)+ (simp add: addFileName_eq)
  then show ?thesis
    by (simp add: newVersionsOf_def matchingDocuments_def insertDocuments_concat)
qed

lemma fold_walk:
  "(\<And>e acc. e \<in> set es \<Longrightarrow> walk e acc = acc @ preorder e) \<Longrightarrow>
   fold walk es acc = acc @ concat (map preorder es)"
  by (induction es arbitrary: acc) auto

lemma walk_preorder: "walk e acc = acc @ preorder e"
proof (induction e arbitrary: acc)
  case (VirtualFile i l s es)
  show ?case using fold_walk [of es] VirtualFile by simp
qed

lemma virtualFiles_preorder: "fold walk (embeddedFiles r) [r] = preorder r"
proof (cases r)
  case (VirtualFile i l s es)
  have "fold walk es [r] = [r] @ concat (map preorder es)"
    by (rule fold_walk) (rule walk_preorder)
  with VirtualFile show ?thesis by simp
qed

lemma fold_addEmbedded_src:
  "fold (addEmbedded_src ctx) nodes m =
     insertDocuments
       (map (documentOfFile_src ctx)
          (filter (\<lambda>node. matchDocument [SelString ''markdown''] (vf_languageId node)) nodes)) m"
  by (induction nodes arbitrary: m)
    (auto simp add: insertDocuments_def addEmbedded_src_def documentOfFile_src_def Let_def)

lemma addSourceFile_src_eq:
  "addSourceFile_src ctx sf m = insertDocuments (documentsOfSourceFile_src ctx sf) m"
  by (simp add: addSourceFile_src_def documentsOfSourceFile_src_def fold_addEmbedded_src Let_def
      virtualFiles_preorder isMarkdown_def insertDocuments_def split: option.split)

lemma newVersionsOf_src_eq:
  "newVersionsOf_src ctx = insertDocuments (matchingDocuments_src ctx) []"
proof -
  have "addSourceFile_src ctx = (\<lambda>f. insertDocuments (documentsOfSourceFile_src ctx f))"
    by (rule ext)+ (simp add: addSourceFile_src_eq)
  then show ?thesis
    by (simp add: newVersionsOf_src_def matchingDocuments_src_def insertDocuments_concat)
qed

lemma insertDocuments_distinct:
  "distinct (map fst m) \<Longrightarrow> distinct (map fst (insertDocuments ds m))"
  unfolding insertDocuments_def
  by (induction ds arbitrary: m) (simp_all add: distinct_update)

lemma update_set_subset: "set (AList.update k v al) \<subseteq> insert (k, v) (set al)"
  by (induction al) auto

lemma insertDocuments_set:
  "set (insertDocuments ds m) \<subseteq> set m \<union> (\<lambda>d. (uri d, d)) ` set ds"
  unfolding insertDocuments_def
proof (induction ds arbitrary: m)
  case Nil
  then show ?case by simp
next
  case (Cons d ds)
  from Cons [of "AList.update (uri d) d m"] update_set_subset [of "uri d" d m]
  show ?case by auto
qed

lemma insertDocuments_keys:
  "fst ` set (insertDocuments ds m) = fst ` set m \<union> uri ` set ds"
  unfolding insertDocuments_def
proof (induction ds arbitrary: m)
  case Nil
  then show ?case by simp
next
  case (Cons d ds)
  have "fst ` set (AList.update (uri d) d m) = insert (uri d) (fst ` set m)"
    by (simp add: dom_update)
  with Cons [of "AList.update (uri d) d m"] show ?case by simp
qed

lemma update_fresh: "k \<notin> fst ` set al \<Longrightarrow> AList.update k v al = al @ [(k, v)]"
  by (induction al) auto

lemma insertDocuments_fresh:
  "distinct (map uri ds) \<Longrightarrow> uri ` set ds \<inter> fst ` set m = {} \<Longrightarrow>
   insertDocuments ds m = m @ map (\<lambda>d. (uri d, d)) ds"
  unfolding insertDocuments_def
proof (induction ds arbitrary: m)
  case Nil
  then show ?case by simp
next
  case (Cons d ds)
  from Cons.prems have fresh: "uri d \<notin> fst ` set m" by auto
  have "uri ` set ds \<inter> fst ` set (m @ [(uri d, d)]) = {}"
    using Cons.prems by auto
  with Cons.IH [of "m @ [(uri d, d)]"] Cons.prems fresh show ?case
    by (simp add: update_fresh)
qed

section \<open>Reconciliation\<close>

lemma reconcile_events:
  "distinct (map fst nv) \<Longrightarrow>
   map fst (snd (reconcile sv nv)) =
     map (\<lambda>(u, d). if u \<in> fst ` set sv then Changed d else Created d) nv @
     map Deleted (filter (\<lambda>u. u \<notin> fst ` set nv) (map fst sv))"
  by (simp add: reconcile_def split_beta Let_def fireNew_events fireDeleted_events)

lemma reconcile_synced:
  "fst (reconcile sv nv) =
     fold AList.delete (filter (\<lambda>u. u \<notin> fst ` set nv) (map fst sv))
       (fold (\<lambda>(u, d). AList.update u d) nv sv)"
  by (simp add: reconcile_def split_beta Let_def fireNew_synced fireDeleted_synced)

lemma map_of_rev_distinct: "distinct (map fst xs) \<Longrightarrow> map_of (rev xs) = map_of xs"
  by (rule map_of_inject_set [THEN iffD2]) (simp_all add: rev_map [symmetric])

lemma reconcile_map_of:
  assumes "distinct (map fst nv)"
  shows "map_of (fst (reconcile sv nv)) = map_of nv"
proof (rule ext)
  fix u
  let ?dels = "filter (\<lambda>u. u \<notin> fst ` set nv) (map fst sv)"
  have m: "map_of (fst (reconcile sv nv)) u = ((map_of sv ++ map_of nv) |` (- set ?dels)) u"
    by (simp add: reconcile_synced fold_delete_map_of fold_update_map_of
        map_of_rev_distinct [OF assms])
  show "map_of (fst (reconcile sv nv)) u = map_of nv u"
  proof (cases "u \<in> fst ` set nv")
    case True
    then have "u \<notin> set ?dels" by simp
    moreover from True have "map_of nv u \<noteq> None" by (simp add: map_of_eq_None_iff)
    ultimately show ?thesis using m by (auto simp: map_add_def restrict_map_def split: option.split)
  next
    case False
    then have n: "map_of nv u = None" by (simp add: map_of_eq_None_iff)
    show ?thesis
    proof (cases "u \<in> fst ` set sv")
      case True
      with False have "u \<in> set ?dels" by simp
      with m n show ?thesis by (simp add: restrict_map_def)
    next
      case False
      then have "map_of sv u = None" by (simp add: map_of_eq_None_iff)
      with m n show ?thesis by (simp add: restrict_map_def map_add_def)
    qed
  qed
qed

lemma reconcile_distinct:
  "distinct (map fst sv) \<Longrightarrow> distinct (map fst (fst (reconcile sv nv)))"
  by (simp add: reconcile_synced fold_delete_distinct fold_update_distinct)

lemma reconcile_set:
  "distinct (map fst sv) \<Longrightarrow> distinct (map fst nv) \<Longrightarrow> set (fst (reconcile sv nv)) = set nv"
  using map_of_inject_set [of "fst (reconcile sv nv)" nv]
  by (simp add: reconcile_distinct reconcile_map_of)

lemma reconcile_keys:
  "distinct (map fst nv) \<Longrightarrow> fst ` set (fst (reconcile sv nv)) = fst ` set nv"
  using reconcile_map_of [of nv sv] by (metis dom_map_of_conv_image_fst)

lemma sync_recomputes:
  "typescript ctx = Some host \<Longrightarrow>
   getProjectVersion host = None \<or> getProjectVersion host \<noteq> lastProjectVersion st \<Longrightarrow>
   sync sel ctx st =
     (\<lparr>lastProjectVersion = getProjectVersion host,
       syncedVersions = fst (reconcile (syncedVersions st) (newVersionsOf sel ctx host))\<rparr>,
      snd (reconcile (syncedVersions st) (newVersionsOf sel ctx host)))"
  by (auto simp: sync_def Let_def split_beta)

lemma sync_src_recomputes:
  "projectVersion ctx = None \<or> projectVersion ctx \<noteq> lastProjectVersion st \<Longrightarrow>
   sync_src ctx st =
     (\<lparr>lastProjectVersion = projectVersion ctx,
       syncedVersions = fst (reconcile (syncedVersions st) (newVersionsOf_src ctx))\<rparr>,
      snd (reconcile (syncedVersions st) (newVersionsOf_src ctx)))"
  by (auto simp: sync_src_def Let_def split_beta)

lemma newVersionsOf_distinct: "distinct (map fst (newVersionsOf sel ctx host))"
  by (simp add: newVersionsOf_eq insertDocuments_distinct)

lemma newVersionsOf_src_distinct: "distinct (map fst (newVersionsOf_src ctx))"
  by (simp add: newVersionsOf_src_eq insertDocuments_distinct)

lemma insertDocuments_keyed: "(k, d) \<in> set (insertDocuments ds []) \<Longrightarrow> k = uri d"
  using insertDocuments_set [of ds "[]"] by auto

lemma keyed_events:
  assumes keyed: "\<And>k d. (k, d) \<in> set nv \<Longrightarrow> k = uri d"
  shows "\<forall>e \<in> set (map (\<lambda>(u, d). if u \<in> K then Changed d else Created d) nv @
           map Deleted (filter (\<lambda>u. u \<notin> fst ` set nv) old)).
         event_uri e \<in> set old \<union> fst ` set nv"
proof
  fix e
  assume "e \<in> set (map (\<lambda>(u, d). if u \<in> K then Changed d else Created d) nv @
           map Deleted (filter (\<lambda>u. u \<notin> fst ` set nv) old))"
  then consider (new) k d where "(k, d) \<in> set nv" "e = Changed d \<or> e = Created d"
    | (old) u where "u \<in> set old" "e = Deleted u"
    by (auto split: if_splits)
  then show "event_uri e \<in> set old \<union> fst ` set nv"
  proof cases
    case new
    from keyed [OF new(1)] new have "event_uri e = k" by auto
    moreover from new(1) have "k \<in> fst ` set nv" by force
    ultimately show ?thesis by simp
  next
    case old
    then show ?thesis by simp
  qed
qed

text \<open>
  C1. On a sync that reconciles (the version token is undefined or differs from the last
  one), the events fired are, in this order: for every entry of the new set, in the order
  of the new set, "changed" with the new document when its URI was tracked before and
  "created" when it was not, whatever the content of the document; then, for every URI
  of the old set that the new set does not have, in the order of the old set, "deleted".
  So every event is for a URI of the old or the new set, and every changed or created
  event comes before every deleted event. Both sources of the tracker agree.
\<close>

theorem sync_events_by_membership:
  "(typescript ctx = Some host \<and>
    (getProjectVersion host = None \<or> getProjectVersion host \<noteq> lastProjectVersion st) \<longrightarrow>
      map fst (snd (sync sel ctx st)) =
        map (\<lambda>(u, d). if u \<in> fst ` set (syncedVersions st) then Changed d else Created d)
          (newVersionsOf sel ctx host) @
        map Deleted
          (filter (\<lambda>u. u \<notin> fst ` set (newVersionsOf sel ctx host))
             (map fst (syncedVersions st))) \<and>
      (\<forall>e \<in> set (map fst (snd (sync sel ctx st))).
         event_uri e \<in> fst ` set (syncedVersions st) \<union> fst ` set (newVersionsOf sel ctx host))) \<and>
   (projectVersion ctx' = None \<or> projectVersion ctx' \<noteq> lastProjectVersion st \<longrightarrow>
      map fst (snd (sync_src ctx' st)) =
        map (\<lambda>(u, d). if u \<in> fst ` set (syncedVersions st) then Changed d else Created d)
          (newVersionsOf_src ctx') @
        map Deleted
          (filter (\<lambda>u. u \<notin> fst ` set (newVersionsOf_src ctx')) (map fst (syncedVersions st))) \<and>
      (\<forall>e \<in> set (map fst (snd (sync_src ctx' st))).
         event_uri e \<in> fst ` set (syncedVersions st) \<union> fst ` set (newVersionsOf_src ctx')))"
proof (intro conjI impI)
  assume h: "typescript ctx = Some host \<and>
    (getProjectVersion host = None \<or> getProjectVersion host \<noteq> lastProjectVersion st)"
  let ?nv = "newVersionsOf sel ctx host"
  show ev: "map fst (snd (sync sel ctx st)) =
        map (\<lambda>(u, d). if u \<in> fst ` set (syncedVersions st) then Changed d else Created d) ?nv @
        map Deleted (filter (\<lambda>u. u \<notin> fst ` set ?nv) (map fst (syncedVersions st)))"
    using h by (simp add: sync_recomputes reconcile_events newVersionsOf_distinct)
  have keyed: "\<And>k d. (k, d) \<in> set ?nv \<Longrightarrow> k = uri d"
    by (simp add: newVersionsOf_eq insertDocuments_keyed)
  show "\<forall>e \<in> set (map fst (snd (sync sel ctx st))).
         event_uri e \<in> fst ` set (syncedVersions st) \<union> fst ` set ?nv"
    unfolding ev
    using keyed_events [of ?nv "fst ` set (syncedVersions st)" "map fst (syncedVersions st)"] keyed
    by simp
next
  assume h: "projectVersion ctx' = None \<or> projectVersion ctx' \<noteq> lastProjectVersion st"
  let ?nv = "newVersionsOf_src ctx'"
  show ev: "map fst (snd (sync_src ctx' st)) =
        map (\<lambda>(u, d). if u \<in> fst ` set (syncedVersions st) then Changed d else Created d) ?nv @
        map Deleted (filter (\<lambda>u. u \<notin> fst ` set ?nv) (map fst (syncedVersions st)))"
    using h by (simp add: sync_src_recomputes reconcile_events newVersionsOf_src_distinct)
  have keyed: "\<And>k d. (k, d) \<in> set ?nv \<Longrightarrow> k = uri d"
    by (simp add: newVersionsOf_src_eq insertDocuments_keyed)
  show "\<forall>e \<in> set (map fst (snd (sync_src ctx' st))).
         event_uri e \<in> fst ` set (syncedVersions st) \<union> fst ` set ?nv"
    unfolding ev
    using keyed_events [of ?nv "fst ` set (syncedVersions st)" "map fst (syncedVersions st)"] keyed
    by simp
qed

theorem sync_events_by_membership_witness:
  "map fst (snd (sync [SelString ''markdown''] (exampleContext (Some ''2'') hostBC) trackedAB)) =
     [Changed (newDocument ''b.md'' ''markdown'' ''B''),
      Created (newDocument ''c.md'' ''markdown'' ''C''),
      Deleted ''a.md''] \<and>
   map fst (snd (sync_src (exampleContext_src (Some ''2'') hostBC_src) trackedAB)) =
     [Changed (newDocument ''b.md'' ''markdown'' ''B''),
      Created (newDocument ''c.md'' ''markdown'' ''C''),
      Deleted ''a.md'']"
  using sync_events_by_membership [of "exampleContext (Some ''2'') hostBC"
      "\<lparr>getProjectVersion = Some ''2'', getScriptFileNames = map fst hostBC\<rparr>" trackedAB
      "[SelString ''markdown'']" "exampleContext_src (Some ''2'') hostBC_src"]
  by (simp add: example_defs sync_defs)

section \<open>Sync under an unchanged version token\<close>

text \<open>
  The claim C2 as it is written fails when the host gives no version token: the token is
  undefined before and after, and the second call recomputes and fires "changed" for the
  tracked document.
\<close>

theorem sync_twice_undefined_token_counterexample:
  "getProjectVersion \<lparr>getProjectVersion = None, getScriptFileNames = map fst hostA\<rparr> = None \<and>
   typescript (exampleContext None hostA) =
     Some \<lparr>getProjectVersion = None, getScriptFileNames = map fst hostA\<rparr> \<and>
   map fst (snd (sync [SelString ''markdown''] (exampleContext None hostA)
     (fst (sync [SelString ''markdown''] (exampleContext None hostA) initial)))) =
     [Changed (newDocument ''a.md'' ''markdown'' ''A'')] \<and>
   map fst (snd (sync_src (exampleContext_src None hostA_src)
     (fst (sync_src (exampleContext_src None hostA_src) initial)))) =
     [Changed (newDocument ''a.md'' ''markdown'' ''A'')]"
  by (simp add: example_defs sync_defs hostA_def hostA_src_def initial_def)

lemma sync_short_circuit:
  "typescript ctx = Some host \<Longrightarrow> getProjectVersion host = Some v \<Longrightarrow>
   lastProjectVersion st = Some v \<Longrightarrow> sync sel ctx st = (st, [])"
  by (simp add: sync_def)

lemma sync_src_short_circuit:
  "projectVersion ctx = Some v \<Longrightarrow> lastProjectVersion st = Some v \<Longrightarrow>
   sync_src ctx st = (st, [])"
  by (simp add: sync_src_def)

lemma sync_records_token:
  "typescript ctx = Some host \<Longrightarrow> getProjectVersion host = Some v \<Longrightarrow>
   lastProjectVersion (fst (sync sel ctx st)) = Some v"
  by (cases "lastProjectVersion st = Some v") (auto simp: sync_def Let_def split_beta)

lemma sync_src_records_token:
  "projectVersion ctx = Some v \<Longrightarrow> lastProjectVersion (fst (sync_src ctx st)) = Some v"
  by (cases "lastProjectVersion st = Some v") (auto simp: sync_src_def Let_def split_beta)

text \<open>
  C2, amended. When the version token is defined and a second call to sync reads the
  token that the first call read, the second call returns right after the comparison: no
  event fires and the state, tracked set included, is the one the first call left. The
  same holds in packages/markdown/index.ts when \<open>context.language.typescript\<close> is
  absent. Both sources of the tracker agree.
\<close>

theorem sync_twice_same_token:
  "(typescript ctx1 = Some host1 \<and> typescript ctx2 = Some host2 \<and>
    getProjectVersion host1 = Some v \<and> getProjectVersion host2 = Some v \<longrightarrow>
      sync sel ctx2 (fst (sync sel ctx1 st)) = (fst (sync sel ctx1 st), [])) \<and>
   (typescript ctx2 = None \<longrightarrow> sync sel ctx2 st = (st, [])) \<and>
   (projectVersion c1 = Some v \<and> projectVersion c2 = Some v \<longrightarrow>
      sync_src c2 (fst (sync_src c1 st)) = (fst (sync_src c1 st), []))"
proof (intro conjI impI)
  assume h: "typescript ctx1 = Some host1 \<and> typescript ctx2 = Some host2 \<and>
    getProjectVersion host1 = Some v \<and> getProjectVersion host2 = Some v"
  then have "lastProjectVersion (fst (sync sel ctx1 st)) = Some v"
    by (simp add: sync_records_token)
  with h show "sync sel ctx2 (fst (sync sel ctx1 st)) = (fst (sync sel ctx1 st), [])"
    by (simp add: sync_short_circuit)
next
  assume "typescript ctx2 = None"
  then show "sync sel ctx2 st = (st, [])" by (simp add: sync_def)
next
  assume h: "projectVersion c1 = Some v \<and> projectVersion c2 = Some v"
  then have "lastProjectVersion (fst (sync_src c1 st)) = Some v"
    by (simp add: sync_src_records_token)
  with h show "sync_src c2 (fst (sync_src c1 st)) = (fst (sync_src c1 st), [])"
    by (simp add: sync_src_short_circuit)
qed

theorem sync_twice_same_token_witness:
  "sync [SelString ''markdown''] (exampleContext (Some ''2'') hostA)
     (fst (sync [SelString ''markdown''] (exampleContext (Some ''2'') hostBC) trackedAB)) =
     (\<lparr>lastProjectVersion = Some ''2'',
       syncedVersions =
         [(''b.md'', newDocument ''b.md'' ''markdown'' ''B''),
          (''c.md'', newDocument ''c.md'' ''markdown'' ''C'')]\<rparr>, []) \<and>
   sync_src (exampleContext_src (Some ''2'') hostA_src)
     (fst (sync_src (exampleContext_src (Some ''2'') hostBC_src) trackedAB)) =
     (\<lparr>lastProjectVersion = Some ''2'',
       syncedVersions =
         [(''b.md'', newDocument ''b.md'' ''markdown'' ''B''),
          (''c.md'', newDocument ''c.md'' ''markdown'' ''C'')]\<rparr>, [])"
  using sync_twice_same_token [of "exampleContext (Some ''2'') hostBC"
      "\<lparr>getProjectVersion = Some ''2'', getScriptFileNames = map fst hostBC\<rparr>"
      "exampleContext (Some ''2'') hostA"
      "\<lparr>getProjectVersion = Some ''2'', getScriptFileNames = map fst hostA\<rparr>"
      "''2''" "[SelString ''markdown'']" trackedAB
      "exampleContext_src (Some ''2'') hostBC_src" "exampleContext_src (Some ''2'') hostA_src"]
  by (simp add: example_defs sync_defs hostA_def hostA_src_def)

section \<open>The new set is the flattening\<close>

text \<open>
  C6. The loops that build the new set compute the flattening of the specification: every
  source file of the project in turn; for a file with an embedded tree, the tree in
  pre-order (the root, then every nested node, recursively), and for every node whose
  language id matches the selector a document fetched under a URI made from the node id
  and inserted under its URI; for a file without a tree, the document of the file itself,
  inserted when it matches the same selector. In packages/markdown/src/index.ts the
  traversal is \<open>walk\<close>, which yields the pre-order, and the selector is
  \<open>markdown\<close>; in packages/markdown/index.ts the traversal is the library's
  \<open>forEachEmbeddedCode\<close>.
\<close>

theorem new_set_is_flattening:
  "newVersionsOf sel ctx host = insertDocuments (matchingDocuments sel ctx host) [] \<and>
   fst ` set (newVersionsOf sel ctx host) = uri ` set (matchingDocuments sel ctx host) \<and>
   fold walk (embeddedFiles r) [r] = preorder r \<and>
   newVersionsOf_src ctx' = insertDocuments (matchingDocuments_src ctx') [] \<and>
   fst ` set (newVersionsOf_src ctx') = uri ` set (matchingDocuments_src ctx')"
  by (simp add: newVersionsOf_eq newVersionsOf_src_eq virtualFiles_preorder insertDocuments_keys)

lemma newVersionsOf_example:
  "newVersionsOf [SelObject (Some ''markdown'')] (exampleContext (Some ''1'') hostTree)
     \<lparr>getProjectVersion = Some ''1'', getScriptFileNames = map fst hostTree\<rparr> =
     [(''f.vue#m1'', newDocument ''f.vue#m1'' ''markdown'' ''M1''),
      (''f.vue#m2'', newDocument ''f.vue#m2'' ''markdown'' ''M2''),
      (''f.vue#m3'', newDocument ''f.vue#m3'' ''markdown'' ''M3''),
      (''a.md'', newDocument ''a.md'' ''markdown'' ''A'')]"
  by (simp add: example_defs sync_defs hostTree_def exampleTree_def)

lemma newVersionsOf_src_example:
  "newVersionsOf_src (exampleContext_src (Some ''1'') hostTree_src) =
     [(''m1'', newDocument ''m1'' ''markdown'' ''M1''),
      (''m2'', newDocument ''m2'' ''markdown'' ''M2''),
      (''m3'', newDocument ''m3'' ''markdown'' ''M3''),
      (''a.md'', newDocument ''a.md'' ''markdown'' ''A'')]"
  by (simp add: example_defs sync_defs hostTree_src_def exampleTree_src_def)

theorem new_set_is_flattening_witness:
  "insertDocuments
     (matchingDocuments [SelObject (Some ''markdown'')] (exampleContext (Some ''1'') hostTree)
        \<lparr>getProjectVersion = Some ''1'', getScriptFileNames = map fst hostTree\<rparr>) [] =
     [(''f.vue#m1'', newDocument ''f.vue#m1'' ''markdown'' ''M1''),
      (''f.vue#m2'', newDocument ''f.vue#m2'' ''markdown'' ''M2''),
      (''f.vue#m3'', newDocument ''f.vue#m3'' ''markdown'' ''M3''),
      (''a.md'', newDocument ''a.md'' ''markdown'' ''A'')] \<and>
   map vf_id (preorder exampleTree_src) = [''root'', ''m1'', ''css'', ''m2'', ''m3''] \<and>
   insertDocuments (matchingDocuments_src (exampleContext_src (Some ''1'') hostTree_src)) [] =
     [(''m1'', newDocument ''m1'' ''markdown'' ''M1''),
      (''m2'', newDocument ''m2'' ''markdown'' ''M2''),
      (''m3'', newDocument ''m3'' ''markdown'' ''M3''),
      (''a.md'', newDocument ''a.md'' ''markdown'' ''A'')]"
proof -
  have walked: "map vf_id (fold walk (embeddedFiles exampleTree_src) [exampleTree_src]) =
      [''root'', ''m1'', ''css'', ''m2'', ''m3'']"
    by (simp add: exampleTree_src_def)
  from new_set_is_flattening [of "[SelObject (Some ''markdown'')]"
      "exampleContext (Some ''1'') hostTree"
      "\<lparr>getProjectVersion = Some ''1'', getScriptFileNames = map fst hostTree\<rparr>"
      exampleTree_src "exampleContext_src (Some ''1'') hostTree_src"]
    newVersionsOf_example newVersionsOf_src_example walked
  show ?thesis by metis
qed

section \<open>The stored set during reconciliation\<close>





section \<open>The documents that getAllMarkdownDocuments returns\<close>

text \<open>
  The claim C4 as it is written fails for a call that short-circuits: a first sync sees
  an empty project at version token 1; the project then holds \<open>a.md\<close> under the same
  token, and \<open>getAllMarkdownDocuments\<close>, whose sync returns at the comparison of the
  tokens, returns no document although \<open>a.md\<close> matches the selector.
\<close>

theorem getAll_stale_under_same_token_counterexample:
  "fst (sync [SelString ''markdown''] (exampleContext (Some ''1'') []) initial) =
     \<lparr>lastProjectVersion = Some ''1'', syncedVersions = []\<rparr> \<and>
   matchingDocuments [SelString ''markdown''] (exampleContext (Some ''1'') hostA)
     \<lparr>getProjectVersion = Some ''1'', getScriptFileNames = map fst hostA\<rparr> =
     [newDocument ''a.md'' ''markdown'' ''A''] \<and>
   fst (getAllMarkdownDocuments [SelString ''markdown''] (exampleContext (Some ''1'') hostA)
     (fst (sync [SelString ''markdown''] (exampleContext (Some ''1'') []) initial))) = []"
  by (simp add: example_defs sync_defs hostA_def initial_def getAllMarkdownDocuments_def
      matchingDocuments_def documentsOfFile_def)

lemma values_after_reconcile:
  assumes sv: "distinct (map fst sv)"
  shows "set (map snd (fst (reconcile sv (insertDocuments ds [])))) \<subseteq> set ds"
    and "uri ` set (map snd (fst (reconcile sv (insertDocuments ds [])))) = uri ` set ds"
    and "distinct (map uri ds) \<Longrightarrow>
      set (map snd (fst (reconcile sv (insertDocuments ds [])))) = set ds"
proof -
  let ?nv = "insertDocuments ds []"
  have nv: "distinct (map fst ?nv)" by (simp add: insertDocuments_distinct)
  have eq: "set (fst (reconcile sv ?nv)) = set ?nv"
    using sv nv by (rule reconcile_set)
  have keyed: "\<And>k d. (k, d) \<in> set ?nv \<Longrightarrow> k = uri d \<and> d \<in> set ds"
    using insertDocuments_set [of ds "[]"] by auto
  show "set (map snd (fst (reconcile sv ?nv))) \<subseteq> set ds"
    using keyed by (auto simp: eq)
  have "uri ` snd ` set ?nv = fst ` set ?nv"
    using keyed by force
  then show "uri ` set (map snd (fst (reconcile sv ?nv))) = uri ` set ds"
    using insertDocuments_keys [of ds "[]"] by (simp add: eq)
  show "set (map snd (fst (reconcile sv ?nv))) = set ds" if "distinct (map uri ds)"
  proof -
    from that have "?nv = map (\<lambda>d. (uri d, d)) ds"
      using insertDocuments_fresh [of ds "[]"] by simp
    then have "snd ` set ?nv = set ds" by (simp add: image_image)
    then show ?thesis by (simp add: eq)
  qed
qed

text \<open>
  C4, amended. When the sync of \<open>getAllMarkdownDocuments\<close> recomputes the tracked
  set (the version token is undefined or differs from the last one) on a map with
  distinct keys, the documents returned are documents of nodes that match the selector,
  their URIs are exactly the URIs of the documents of the matching nodes, and when those
  URIs are pairwise distinct the documents returned are exactly the documents of the
  matching nodes. When the sync short-circuits on an unchanged token, the documents
  returned are those of the tracked set as it was.
\<close>

theorem getAll_after_recomputing_sync:
  "(typescript ctx = Some host \<and>
    (getProjectVersion host = None \<or> getProjectVersion host \<noteq> lastProjectVersion st) \<and>
    distinct (map fst (syncedVersions st)) \<longrightarrow>
      set (fst (getAllMarkdownDocuments sel ctx st)) \<subseteq> set (matchingDocuments sel ctx host) \<and>
      uri ` set (fst (getAllMarkdownDocuments sel ctx st)) =
        uri ` set (matchingDocuments sel ctx host) \<and>
      (distinct (map uri (matchingDocuments sel ctx host)) \<longrightarrow>
         set (fst (getAllMarkdownDocuments sel ctx st)) = set (matchingDocuments sel ctx host))) \<and>
   (typescript ctx = Some host \<and> getProjectVersion host = Some v \<and>
    lastProjectVersion st = Some v \<longrightarrow>
      fst (getAllMarkdownDocuments sel ctx st) = map snd (syncedVersions st))"
proof (intro conjI impI)
  assume h: "typescript ctx = Some host \<and>
    (getProjectVersion host = None \<or> getProjectVersion host \<noteq> lastProjectVersion st) \<and>
    distinct (map fst (syncedVersions st))"
  then have all: "fst (getAllMarkdownDocuments sel ctx st) =
      map snd (fst (reconcile (syncedVersions st) (insertDocuments (matchingDocuments sel ctx host) [])))"
    by (simp add: getAllMarkdownDocuments_def sync_recomputes newVersionsOf_eq)
  from h have sv: "distinct (map fst (syncedVersions st))" by simp
  show "set (fst (getAllMarkdownDocuments sel ctx st)) \<subseteq> set (matchingDocuments sel ctx host)"
    unfolding all by (rule values_after_reconcile(1) [OF sv])
  show "uri ` set (fst (getAllMarkdownDocuments sel ctx st)) =
      uri ` set (matchingDocuments sel ctx host)"
    unfolding all by (rule values_after_reconcile(2) [OF sv])
  show "set (fst (getAllMarkdownDocuments sel ctx st)) = set (matchingDocuments sel ctx host)"
    if "distinct (map uri (matchingDocuments sel ctx host))"
    unfolding all by (rule values_after_reconcile(3) [OF sv that])
next
  assume "typescript ctx = Some host \<and> getProjectVersion host = Some v \<and>
    lastProjectVersion st = Some v"
  then show "fst (getAllMarkdownDocuments sel ctx st) = map snd (syncedVersions st)"
    by (simp add: getAllMarkdownDocuments_def sync_short_circuit)
qed

theorem getAll_after_recomputing_sync_witness:
  "set (fst (getAllMarkdownDocuments [SelString ''markdown''] (exampleContext (Some ''2'') hostBC)
      trackedAB)) =
     {newDocument ''b.md'' ''markdown'' ''B'', newDocument ''c.md'' ''markdown'' ''C''} \<and>
   fst (getAllMarkdownDocuments [SelString ''markdown''] (exampleContext (Some ''1'') hostBC)
      trackedAB) =
     [newDocument ''a.md'' ''markdown'' ''A'', newDocument ''b.md'' ''markdown'' ''B'']"
proof -
  have m: "matchingDocuments [SelString ''markdown''] (exampleContext (Some ''2'') hostBC)
      \<lparr>getProjectVersion = Some ''2'', getScriptFileNames = map fst hostBC\<rparr> =
      [newDocument ''b.md'' ''markdown'' ''B'', newDocument ''c.md'' ''markdown'' ''C'']"
    by (simp add: example_defs matchingDocuments_def documentsOfFile_def)
  have h: "typescript (exampleContext (Some ''2'') hostBC) =
      Some \<lparr>getProjectVersion = Some ''2'', getScriptFileNames = map fst hostBC\<rparr>"
    "typescript (exampleContext (Some ''1'') hostBC) =
      Some \<lparr>getProjectVersion = Some ''1'', getScriptFileNames = map fst hostBC\<rparr>"
    "lastProjectVersion trackedAB = Some ''1''"
    "syncedVersions trackedAB =
      [(''a.md'', newDocument ''a.md'' ''markdown'' ''A''),
       (''b.md'', newDocument ''b.md'' ''markdown'' ''B'')]"
    by (simp_all add: exampleContext_def trackedAB_def)
  from getAll_after_recomputing_sync [of "exampleContext (Some ''2'') hostBC"
      "\<lparr>getProjectVersion = Some ''2'', getScriptFileNames = map fst hostBC\<rparr>" trackedAB
      "[SelString ''markdown'']"]
    getAll_after_recomputing_sync [of "exampleContext (Some ''1'') hostBC"
      "\<lparr>getProjectVersion = Some ''1'', getScriptFileNames = map fst hostBC\<rparr>" trackedAB
      "[SelString ''markdown'']" "''1''"]
  show ?thesis by (simp add: h m newDocument_def)
qed

section \<open>Create/delete pairing\<close>

lemma pairing_append:
  "pairing u (xs @ ys) opened =
     (case pairing u xs opened of None \<Rightarrow> None | Some opened' \<Rightarrow> pairing u ys opened')"
  by (induction xs arbitrary: opened) (auto split: event.split)

lemma pairing_new:
  assumes "distinct (map fst nv)" and "\<And>k d. (k, d) \<in> set nv \<Longrightarrow> k = uri d"
  shows "pairing u (map (\<lambda>(k, d). if k \<in> K then Changed d else Created d) nv) opened =
     (if u \<in> fst ` set nv then (if (u \<in> K) = opened then Some True else None)
      else Some opened)"
  using assms
proof (induction nv arbitrary: opened)
  case Nil
  show ?case by simp
next
  case (Cons p nv)
  obtain k d where p: "p = (k, d)" by (cases p)
  define rest where "rest = map (\<lambda>(k, d). if k \<in> K then Changed d else Created d) nv"
  have k: "uri d = k"
    using Cons.prems(2) [of k d] by (simp add: p)
  from Cons.prems(1) have fresh: "k \<notin> fst ` set nv" and dist: "distinct (map fst nv)"
    by (simp_all add: p)
  have keyed: "k' = uri d'" if "(k', d') \<in> set nv" for k' d'
  proof (rule Cons.prems(2))
    from that show "(k', d') \<in> set (p # nv)" by simp
  qed
  have IH: "pairing u rest b =
      (if u \<in> fst ` set nv then (if (u \<in> K) = b then Some True else None) else Some b)" for b
    unfolding rest_def by (rule Cons.IH [OF dist keyed])
  have keys: "fst ` set (p # nv) = insert k (fst ` set nv)" by (simp add: p)
  show ?case
  proof (cases "k = u")
    case True
    with fresh have "u \<notin> fst ` set nv" by simp
    then have same: "pairing u rest b = Some b" for b by (simp add: IH)
    have "pairing u ((if u \<in> K then Changed d else Created d) # rest) opened =
        (if (u \<in> K) = opened then Some True else None)"
      using k True by (cases "u \<in> K"; cases opened) (simp_all add: same)
    with True show ?thesis by (simp add: p rest_def)
  next
    case False
    then have "pairing u ((if k \<in> K then Changed d else Created d) # rest) opened =
        pairing u rest opened"
      using k by (cases "k \<in> K") simp_all
    with False show ?thesis
      unfolding keys by (simp add: p rest_def [symmetric] IH)
  qed
qed

lemma pairing_deleted:
  "distinct ds \<Longrightarrow>
   pairing u (map Deleted ds) opened =
     (if u \<in> set ds then (if opened then Some False else None) else Some opened)"
  by (induction ds arbitrary: opened) auto

lemma reconcile_pairing:
  assumes sv: "distinct (map fst sv)" and nv: "distinct (map fst nv)"
    and keyed: "\<And>k d. (k, d) \<in> set nv \<Longrightarrow> k = uri d"
  shows "pairing u (map fst (snd (reconcile sv nv))) (u \<in> fst ` set sv) =
     Some (u \<in> fst ` set nv)"
proof -
  define stale where "stale = filter (\<lambda>k. k \<notin> fst ` set nv) (map fst sv)"
  define new where
    "new = map (\<lambda>(k, d). if k \<in> fst ` set sv then Changed d else Created d) nv"
  define was where "was = (u \<in> fst ` set sv)"
  define now where "now = (u \<in> fst ` set nv)"
  have stale: "distinct stale" using sv by (simp add: stale_def)
  have mem: "u \<in> set stale \<longleftrightarrow> was \<and> \<not> now"
    by (auto simp: stale_def was_def now_def)
  have events: "map fst (snd (reconcile sv nv)) = new @ map Deleted stale"
    by (simp only: reconcile_events [OF nv] new_def stale_def)
  have first: "pairing u new was = Some (now \<or> was)"
    using pairing_new [OF nv keyed, of u "fst ` set sv" was]
    by (simp add: new_def was_def now_def)
  have second: "pairing u (map Deleted stale) (now \<or> was) = Some now"
    by (cases now; cases was) (simp_all add: pairing_deleted [OF stale] mem)
  show ?thesis
    by (simp only: events pairing_append first second option.case
        was_def [symmetric] now_def [symmetric])
qed

lemma sync_pairing:
  assumes sv: "distinct (map fst (syncedVersions st))"
  shows "pairing u (map fst (snd (sync sel ctx st))) (u \<in> fst ` set (syncedVersions st)) =
     Some (u \<in> fst ` set (syncedVersions (fst (sync sel ctx st)))) \<and>
     distinct (map fst (syncedVersions (fst (sync sel ctx st))))"
proof (cases "typescript ctx")
  case None
  then show ?thesis using sv by (simp add: sync_def)
next
  case (Some host)
  show ?thesis
  proof (cases "getProjectVersion host = None \<or> getProjectVersion host \<noteq> lastProjectVersion st")
    case True
    let ?nv = "newVersionsOf sel ctx host"
    have keyed: "\<And>k d. (k, d) \<in> set ?nv \<Longrightarrow> k = uri d"
      by (simp add: newVersionsOf_eq insertDocuments_keyed)
    from Some True show ?thesis
      by (simp add: sync_recomputes reconcile_pairing [OF sv newVersionsOf_distinct keyed]
          reconcile_keys [OF newVersionsOf_distinct] reconcile_distinct [OF sv])
  next
    case False
    then obtain v where "getProjectVersion host = Some v" "lastProjectVersion st = Some v"
      by (cases "getProjectVersion host") auto
    with Some show ?thesis using sv by (simp add: sync_short_circuit)
  qed
qed

lemma syncs_pairing:
  "distinct (map fst (syncedVersions st)) \<Longrightarrow>
   pairing u (snd (lifetime sel (map Sync ctxs) st)) (u \<in> fst ` set (syncedVersions st)) =
     Some (u \<in> fst ` set (syncedVersions (fst (lifetime sel (map Sync ctxs) st))))"
proof (induction ctxs arbitrary: st)
  case Nil
  then show ?case by simp
next
  case (Cons ctx ctxs)
  from sync_pairing [OF Cons.prems, of u sel ctx]
  have step: "pairing u (map fst (snd (sync sel ctx st))) (u \<in> fst ` set (syncedVersions st)) =
      Some (u \<in> fst ` set (syncedVersions (fst (sync sel ctx st))))"
    and dist: "distinct (map fst (syncedVersions (fst (sync sel ctx st))))"
    by simp_all
  from Cons.IH [OF dist] step show ?case
    by (simp add: split_beta pairing_append)
qed

text \<open>
  The claim C3 as it is written fails over a lifetime that includes the file watcher: a
  watched-file deletion of a URI that was never created fires "deleted" first, and a
  watched-file creation of a file that a sync has already reported fires a second
  "created" with no "deleted" in between.
\<close>

theorem watcher_breaks_pairing_counterexample:
  "snd (lifetime [SelString ''markdown'']
      [Watch (exampleContext (Some ''1'') hostA) [\<lparr>change_type = 3, change_uri = ''gone.md''\<rparr>]]
      initial) = [Deleted ''gone.md''] \<and>
   pairing ''gone.md''
     (snd (lifetime [SelString ''markdown'']
        [Watch (exampleContext (Some ''1'') hostA) [\<lparr>change_type = 3, change_uri = ''gone.md''\<rparr>]]
        initial)) False = None \<and>
   snd (lifetime [SelString ''markdown'']
      [Sync (exampleContext (Some ''1'') hostA),
       Watch (exampleContext (Some ''1'') hostA) [\<lparr>change_type = 1, change_uri = ''a.md''\<rparr>]]
      initial) =
     [Created (newDocument ''a.md'' ''markdown'' ''A''),
      Created (newDocument ''a.md'' ''markdown'' ''A'')] \<and>
   pairing ''a.md''
     (snd (lifetime [SelString ''markdown'']
        [Sync (exampleContext (Some ''1'') hostA),
         Watch (exampleContext (Some ''1'') hostA) [\<lparr>change_type = 1, change_uri = ''a.md''\<rparr>]]
        initial)) False = None"
  by (simp add: example_defs sync_defs hostA_def initial_def fileWatcher_def watchChange_def
      getTextDocument_def)

text \<open>
  C3, amended. Over any sequence of sync calls from the initial state, each against the
  context of its moment and with no file-watcher event, the events of every URI are
  paired: the first is "created", "changed" and "deleted" come only after a "created"
  that no "deleted" has followed, and "created" never follows "created" or "changed"
  without a "deleted" in between. The URI is in the tracked set exactly when its events
  so far end with "created" or "changed"; a URI that has left the tracked set has
  "deleted" as its last event.
\<close>

theorem sync_events_are_paired:
  "pairing u (snd (lifetime sel (map Sync ctxs) initial)) False =
     Some (u \<in> fst ` set (syncedVersions (fst (lifetime sel (map Sync ctxs) initial))))"
  using syncs_pairing [of initial u sel ctxs] by (simp add: initial_def)

theorem sync_events_are_paired_witness:
  "snd (lifetime [SelString ''markdown'']
      (map Sync [exampleContext (Some ''1'') hostA, exampleContext (Some ''2'') hostBC,
         exampleContext (Some ''3'') hostBC, exampleContext (Some ''4'') hostA]) initial) =
     [Created (newDocument ''a.md'' ''markdown'' ''A''),
      Created (newDocument ''b.md'' ''markdown'' ''B''),
      Created (newDocument ''c.md'' ''markdown'' ''C''),
      Deleted ''a.md'',
      Changed (newDocument ''b.md'' ''markdown'' ''B''),
      Changed (newDocument ''c.md'' ''markdown'' ''C''),
      Created (newDocument ''a.md'' ''markdown'' ''A''),
      Deleted ''b.md'', Deleted ''c.md''] \<and>
   pairing ''a.md''
     (snd (lifetime [SelString ''markdown'']
        (map Sync [exampleContext (Some ''1'') hostA, exampleContext (Some ''2'') hostBC,
           exampleContext (Some ''3'') hostBC, exampleContext (Some ''4'') hostA]) initial))
     False = Some True \<and>
   pairing ''b.md''
     (snd (lifetime [SelString ''markdown'']
        (map Sync [exampleContext (Some ''1'') hostA, exampleContext (Some ''2'') hostBC,
           exampleContext (Some ''3'') hostBC, exampleContext (Some ''4'') hostA]) initial))
     False = Some False"
proof -
  have run: "lifetime [SelString ''markdown'']
      (map Sync [exampleContext (Some ''1'') hostA, exampleContext (Some ''2'') hostBC,
         exampleContext (Some ''3'') hostBC, exampleContext (Some ''4'') hostA]) initial =
     (\<lparr>lastProjectVersion = Some ''4'',
       syncedVersions = [(''a.md'', newDocument ''a.md'' ''markdown'' ''A'')]\<rparr>,
      [Created (newDocument ''a.md'' ''markdown'' ''A''),
       Created (newDocument ''b.md'' ''markdown'' ''B''),
       Created (newDocument ''c.md'' ''markdown'' ''C''),
       Deleted ''a.md'',
       Changed (newDocument ''b.md'' ''markdown'' ''B''),
       Changed (newDocument ''c.md'' ''markdown'' ''C''),
       Created (newDocument ''a.md'' ''markdown'' ''A''),
       Deleted ''b.md'', Deleted ''c.md''])"
    by (simp add: example_defs sync_defs hostA_def initial_def)
  from sync_events_are_paired [of "''a.md''" "[SelString ''markdown'']"
      "[exampleContext (Some ''1'') hostA, exampleContext (Some ''2'') hostBC,
         exampleContext (Some ''3'') hostBC, exampleContext (Some ''4'') hostA]"]
    sync_events_are_paired [of "''b.md''" "[SelString ''markdown'']"
      "[exampleContext (Some ''1'') hostA, exampleContext (Some ''2'') hostBC,
         exampleContext (Some ''3'') hostBC, exampleContext (Some ''4'') hostA]"]
  show ?thesis unfolding run by simp
qed

section \<open>Cached derived documents\<close>

text \<open>
  The claim C7 as it is written fails for \<open>getHtmlDocument\<close>: the document object
  number 7 is parsed at version 1 and presented again at version 2 with another text;
  the second call returns the parse of version 1 and leaves the cache entry as it was.
\<close>

theorem getHtmlDocument_ignores_version_counterexample:
  "version (page 1 ''html'' ''<a>'') \<noteq> version (page 2 ''html'' ''<b>'') \<and>
   fst (getHtmlDocument getText (7, page 2 ''html'' ''<b>'')
     (snd (getHtmlDocument getText (7, page 1 ''html'' ''<a>'') Map.empty))) = Some ''<a>'' \<and>
   getText (page 2 ''html'' ''<b>'') = ''<b>'' \<and>
   snd (getHtmlDocument getText (7, page 2 ''html'' ''<b>'')
     (snd (getHtmlDocument getText (7, page 1 ''html'' ''<a>'') Map.empty))) 7 = Some ''<a>''"
  by (simp add: getHtmlDocument_def page_def Let_def)

lemma getJsonDocument_hit:
  "matchDocument sel (languageId d) \<Longrightarrow> cache r = Some (version d, j) \<Longrightarrow>
   getJsonDocument sel parse (r, d) cache = (Some j, cache)"
  by (simp add: getJsonDocument_def)

lemma getJsonDocument_miss:
  "matchDocument sel (languageId d) \<Longrightarrow>
   cache r = None \<or> (\<exists>v j. cache r = Some (v, j) \<and> v \<noteq> version d) \<Longrightarrow>
   getJsonDocument sel parse (r, d) cache =
     (Some (parse d), cache(r \<mapsto> (version d, parse d)))"
  by (auto simp: getJsonDocument_def Let_def)

lemma getJsonDocument_again:
  "getJsonDocument sel parse (r, d) (snd (getJsonDocument sel parse (r, d) cache)) =
     getJsonDocument sel parse (r, d) cache"
  by (auto simp: getJsonDocument_def Let_def split: option.split)

lemma getHtmlDocument_again:
  "languageId d' = languageId d \<Longrightarrow>
   getHtmlDocument parse (r, d') (snd (getHtmlDocument parse (r, d) cache)) =
     getHtmlDocument parse (r, d) cache"
  by (auto simp: getHtmlDocument_def Let_def split: option.split)

text \<open>
  C7, amended. \<open>getJsonDocument\<close> returns no document for a language id outside the
  selector; otherwise it returns the cached derived document when the version stored for
  the document object equals the version of the document, and when there is no entry or
  the stored version differs it parses the document and replaces the entry with the new
  version and parse. \<open>getHtmlDocument\<close> returns no document for a language id other
  than \<open>html\<close>, keeps no version, returns the cached derived document whenever the
  document object has an entry, and parses and stores otherwise. For both, a second call
  with the same document gives the same result and leaves the cache as the first call
  left it.
\<close>

theorem derived_document_caches:
  "(\<not> matchDocument sel (languageId d) \<longrightarrow>
      getJsonDocument sel parse (r, d) cache = (None, cache)) \<and>
   (matchDocument sel (languageId d) \<and> cache r = Some (version d, j) \<longrightarrow>
      getJsonDocument sel parse (r, d) cache = (Some j, cache)) \<and>
   (matchDocument sel (languageId d) \<and>
    (cache r = None \<or> (\<exists>v j'. cache r = Some (v, j') \<and> v \<noteq> version d)) \<longrightarrow>
      getJsonDocument sel parse (r, d) cache =
        (Some (parse d), cache(r \<mapsto> (version d, parse d)))) \<and>
   getJsonDocument sel parse (r, d) (snd (getJsonDocument sel parse (r, d) cache)) =
     getJsonDocument sel parse (r, d) cache \<and>
   (languageId d \<noteq> ''html'' \<longrightarrow> getHtmlDocument parse' (r, d) cache' = (None, cache')) \<and>
   (languageId d = ''html'' \<and> cache' r = Some h \<longrightarrow>
      getHtmlDocument parse' (r, d) cache' = (Some h, cache')) \<and>
   (languageId d = ''html'' \<and> cache' r = None \<longrightarrow>
      getHtmlDocument parse' (r, d) cache' = (Some (parse' d), cache'(r \<mapsto> parse' d))) \<and>
   (languageId d' = languageId d \<longrightarrow>
      getHtmlDocument parse' (r, d') (snd (getHtmlDocument parse' (r, d) cache')) =
        getHtmlDocument parse' (r, d) cache')"
proof (intro conjI impI)
  show "getJsonDocument sel parse (r, d) cache = (None, cache)"
    if "\<not> matchDocument sel (languageId d)"
    using that by (simp add: getJsonDocument_def)
  show "getJsonDocument sel parse (r, d) cache = (Some j, cache)"
    if "matchDocument sel (languageId d) \<and> cache r = Some (version d, j)"
    using that by (simp add: getJsonDocument_hit)
  show "getJsonDocument sel parse (r, d) cache =
      (Some (parse d), cache(r \<mapsto> (version d, parse d)))"
    if "matchDocument sel (languageId d) \<and>
      (cache r = None \<or> (\<exists>v j'. cache r = Some (v, j') \<and> v \<noteq> version d))"
    using that getJsonDocument_miss [of sel d cache r parse] by blast
  show "getJsonDocument sel parse (r, d) (snd (getJsonDocument sel parse (r, d) cache)) =
      getJsonDocument sel parse (r, d) cache"
    by (rule getJsonDocument_again)
  show "getHtmlDocument parse' (r, d) cache' = (None, cache')" if "languageId d \<noteq> ''html''"
    using that by (simp add: getHtmlDocument_def)
  show "getHtmlDocument parse' (r, d) cache' = (Some h, cache')"
    if "languageId d = ''html'' \<and> cache' r = Some h"
    using that by (simp add: getHtmlDocument_def)
  show "getHtmlDocument parse' (r, d) cache' = (Some (parse' d), cache'(r \<mapsto> parse' d))"
    if "languageId d = ''html'' \<and> cache' r = None"
    using that by (simp add: getHtmlDocument_def Let_def)
  show "getHtmlDocument parse' (r, d') (snd (getHtmlDocument parse' (r, d) cache')) =
      getHtmlDocument parse' (r, d) cache'"
    if "languageId d' = languageId d"
    using that by (rule getHtmlDocument_again)
qed

theorem derived_document_caches_witness:
  "fst (getJsonDocument [SelString ''json'', SelString ''jsonc''] getText
      (7, page 2 ''json'' ''{}'') [7 \<mapsto> (2, ''cached'')]) = Some ''cached'' \<and>
   fst (getJsonDocument [SelString ''json'', SelString ''jsonc''] getText
      (7, page 3 ''json'' ''{}'') [7 \<mapsto> (2, ''cached'')]) = Some ''{}'' \<and>
   snd (getJsonDocument [SelString ''json'', SelString ''jsonc''] getText
      (7, page 3 ''json'' ''{}'') [7 \<mapsto> (2, ''cached'')]) 7 = Some (3, ''{}'') \<and>
   fst (getJsonDocument [SelString ''json'', SelString ''jsonc''] getText
      (7, page 3 ''css'' ''{}'') [7 \<mapsto> (2, ''cached'')]) = None \<and>
   fst (getHtmlDocument getText (7, page 3 ''html'' ''<b>'') [7 \<mapsto> ''cached'']) = Some ''cached'' \<and>
   fst (getHtmlDocument getText (7, page 3 ''html'' ''<b>'') Map.empty) = Some ''<b>'' \<and>
   fst (getHtmlDocument getText (7, page 3 ''css'' ''{}'') Map.empty) = None"
proof -
  note hit = derived_document_caches [where sel = "[SelString ''json'', SelString ''jsonc'']"
      and d = "page 2 ''json'' ''{}''" and parse = getText and r = 7
      and cache = "[7 \<mapsto> (2, ''cached'')]" and j = "''cached''" and parse' = getText
      and cache' = "[7 \<mapsto> ''cached'']" and h = "''cached''" and d' = "page 2 ''json'' ''{}''"]
  note miss = derived_document_caches [where sel = "[SelString ''json'', SelString ''jsonc'']"
      and d = "page 3 ''json'' ''{}''" and parse = getText and r = 7
      and cache = "[7 \<mapsto> (2, ''cached'')]" and j = "''cached''" and parse' = getText
      and cache' = "[7 \<mapsto> ''cached'']" and h = "''cached''" and d' = "page 3 ''json'' ''{}''"]
  note other = derived_document_caches [where sel = "[SelString ''json'', SelString ''jsonc'']"
      and d = "page 3 ''css'' ''{}''" and parse = getText and r = 7
      and cache = "[7 \<mapsto> (2, ''cached'')]" and j = "''cached''" and parse' = getText
      and cache' = Map.empty and h = "''cached''" and d' = "page 3 ''css'' ''{}''"]
  note html_hit = derived_document_caches [where sel = "[SelString ''json'', SelString ''jsonc'']"
      and d = "page 3 ''html'' ''<b>''" and parse = getText and r = 7
      and cache = "[7 \<mapsto> (2, ''cached'')]" and j = "''cached''" and parse' = getText
      and cache' = "[7 \<mapsto> ''cached'']" and h = "''cached''" and d' = "page 3 ''html'' ''<b>''"]
  note html_miss = derived_document_caches [where sel = "[SelString ''json'', SelString ''jsonc'']"
      and d = "page 3 ''html'' ''<b>''" and parse = getText and r = 7
      and cache = "[7 \<mapsto> (2, ''cached'')]" and j = "''cached''" and parse' = getText
      and cache' = Map.empty and h = "''cached''" and d' = "page 3 ''html'' ''<b>''"]
  from hit miss other html_hit html_miss show ?thesis
    by (simp add: page_def)
qed

section \<open>Round trip of the position mapper\<close>

text \<open>
  The claim C8 as it is written fails on spans whose two ranges differ in length: the
  spans of section 8 of the specification satisfy the invariant of section 3, the source
  position 9 lies inside the source range \<open>[0,10)\<close> of the first, its generated position
  is 9, which is past the generated range \<open>[0,8)\<close> of the first span and inside that of
  the second, and maps back to 21.
\<close>

theorem round_trip_unequal_lengths_counterexample:
  "spans_sorted scenarioSpans \<and>
   source_start (hd scenarioSpans) < 9 \<and> 9 < source_end (hd scenarioSpans) \<and>
   toGeneratedPosition scenarioSpans 9 = Some 9 \<and>
   toSourcePosition scenarioSpans 9 = Some 21"
  by (simp add: scenarioSpans_def spans_sorted_def span_before_def)

lemma round_trip_in_span:
  assumes "spans_sorted ms" and "m \<in> set ms" and "source_start m \<le> p" and "p < source_end m"
    and "generated_start m + (p - source_start m) < generated_end m"
  shows "toGeneratedPosition ms p = Some (generated_start m + (p - source_start m)) \<and>
    toSourcePosition ms (generated_start m + (p - source_start m)) = Some p"
  using assms(1,2)
proof (induction ms)
  case Nil
  then show ?case by simp
next
  case (Cons a ms)
  define g where "g = generated_start m + (p - source_start m)"
  from Cons.prems(1) have rest: "spans_sorted ms"
    and before: "\<And>x. x \<in> set ms \<Longrightarrow> span_before a x"
    by (simp_all add: spans_sorted_def)
  have "toGeneratedPosition (a # ms) p = Some g \<and> toSourcePosition (a # ms) g = Some p"
  proof (cases "m = a")
    case True
    from assms(3,4) True have inside: "source_start a \<le> p \<and> p < source_end a"
      by simp
    from assms(3,5) True
    have inside': "generated_start a \<le> g \<and> g < generated_end a"
      and there: "generated_start a + (p - source_start a) = g"
      and again: "source_start a + (g - generated_start a) = p"
      by (auto simp: g_def)
    show ?thesis
      by (simp only: toGeneratedPosition.simps toSourcePosition.simps inside inside' there again
          if_True simp_thms)
  next
    case False
    with Cons.prems(2) have m: "m \<in> set ms" by simp
    from before [OF m] assms(3)
    have outside: "(source_start a \<le> p \<and> p < source_end a) = False"
      and outside': "(generated_start a \<le> g \<and> g < generated_end a) = False"
      by (auto simp: g_def span_before_def)
    from Cons.IH [OF rest m]
    have "toGeneratedPosition ms p = Some g \<and> toSourcePosition ms g = Some p"
      by (simp only: g_def)
    then show ?thesis
      by (simp only: toGeneratedPosition.simps toSourcePosition.simps outside outside' if_False)
  qed
  then show ?case by (simp only: g_def)
qed

lemma equal_lengths_stay_inside:
  assumes "source_start m \<le> p" and "p < source_end m"
    and "source_end m - source_start m = generated_end m - generated_start m"
  shows "generated_start m + (p - source_start m) < generated_end m"
  using assms by arith

lemma gap_maps_to_none:
  "(\<And>m. m \<in> set ms \<Longrightarrow> \<not> (source_start m \<le> p \<and> p < source_end m)) \<Longrightarrow>
   toGeneratedPosition ms p = None"
  by (induction ms) auto

text \<open>
  C8, amended. For spans that satisfy the invariant of section 3 and a position inside the
  source range of one of them (left-closed, right-open, so also strictly inside) whose
  offset within the span stays inside the generated range of that span, the generated
  position is the base of the generated range plus the offset, and mapping it back gives
  the position again. The offset stays inside whenever the two ranges of the span have
  the same length. A position that lies in the source range of no span maps to none.
\<close>

theorem position_round_trip:
  "(spans_sorted ms \<and> m \<in> set ms \<and> source_start m \<le> p \<and> p < source_end m \<and>
    generated_start m + (p - source_start m) < generated_end m \<longrightarrow>
      toGeneratedPosition ms p = Some (generated_start m + (p - source_start m)) \<and>
      toSourcePosition ms (generated_start m + (p - source_start m)) = Some p) \<and>
   (source_start m \<le> p \<and> p < source_end m \<and>
    source_end m - source_start m = generated_end m - generated_start m \<longrightarrow>
      generated_start m + (p - source_start m) < generated_end m) \<and>
   ((\<forall>m \<in> set ms. \<not> (source_start m \<le> p \<and> p < source_end m)) \<longrightarrow>
      toGeneratedPosition ms p = None)"
  using round_trip_in_span [of ms m p] equal_lengths_stay_inside [of m p]
    gap_maps_to_none [of ms p]
  by blast

theorem position_round_trip_witness:
  "spans_sorted exampleSpans \<and>
   toGeneratedPosition exampleSpans 8 = Some 3 \<and> toSourcePosition exampleSpans 3 = Some 8 \<and>
   toGeneratedPosition exampleSpans 22 = Some 12 \<and> toSourcePosition exampleSpans 12 = Some 22 \<and>
   toGeneratedPosition exampleSpans 17 = None \<and> toGeneratedPosition exampleSpans 30 = None \<and>
   toGeneratedPosition scenarioSpans 7 = Some 7 \<and> toSourcePosition scenarioSpans 7 = Some 7"
proof -
  have ok: "spans_sorted exampleSpans" "spans_sorted scenarioSpans"
    by (simp_all add: exampleSpans_def scenarioSpans_def spans_sorted_def span_before_def)
  note first = position_round_trip [where ms = exampleSpans and p = 8
      and m = "\<lparr>source_start = 5, source_end = 15, generated_start = 0, generated_end = 10\<rparr>"]
  note second = position_round_trip [where ms = exampleSpans and p = 22
      and m = "\<lparr>source_start = 20, source_end = 23, generated_start = 10, generated_end = 13\<rparr>"]
  note gap = position_round_trip [where ms = exampleSpans and p = 17
      and m = "\<lparr>source_start = 5, source_end = 15, generated_start = 0, generated_end = 10\<rparr>"]
  note after = position_round_trip [where ms = exampleSpans and p = 30
      and m = "\<lparr>source_start = 5, source_end = 15, generated_start = 0, generated_end = 10\<rparr>"]
  note short = position_round_trip [where ms = scenarioSpans and p = 7
      and m = "\<lparr>source_start = 0, source_end = 10, generated_start = 0, generated_end = 8\<rparr>"]
  have mem: "set exampleSpans =
      {\<lparr>source_start = 5, source_end = 15, generated_start = 0, generated_end = 10\<rparr>,
       \<lparr>source_start = 20, source_end = 23, generated_start = 10, generated_end = 13\<rparr>}"
    "set scenarioSpans =
      {\<lparr>source_start = 0, source_end = 10, generated_start = 0, generated_end = 8\<rparr>,
       \<lparr>source_start = 20, source_end = 30, generated_start = 8, generated_end = 18\<rparr>}"
    by (simp_all add: exampleSpans_def scenarioSpans_def)
  from first second gap after short ok show ?thesis
    by (simp add: mem)
qed

end
